theory Spec2Isabelle
  imports Main "HOL-Library.AList" "HOL-Library.Multiset"
begin

section \<open>Python values and the string coercions of the stored metadata\<close>

text \<open>
  Redis is opened with \<open>decode_responses=True\<close>: every stored value is a string, and
  \<open>create_chunk\<close> converts the all-digit ones to integers and back on every update.
  Strings are byte strings here; \<open>isdigit\<close> is Python's \<open>str.isdigit\<close> on ASCII text.
\<close>

type_synonym bytes = string

datatype pyval = PInt int | PStr string

definition is_digit_char :: "char \<Rightarrow> bool" where
  "is_digit_char c = (48 \<le> (of_char c :: nat) \<and> (of_char c :: nat) \<le> 57)"

definition isdigit :: "string \<Rightarrow> bool" where
  "isdigit s = (s \<noteq> [] \<and> list_all is_digit_char s)"

definition digit_value :: "char \<Rightarrow> nat" where
  "digit_value c = of_char c - 48"

definition digits_value :: "string \<Rightarrow> nat" where
  "digits_value s = foldl (\<lambda>a c. 10 * a + digit_value c) 0 s"

definition digit_char :: "nat \<Rightarrow> char" where
  "digit_char d = ''0123456789'' ! d"

fun str_nat :: "nat \<Rightarrow> string" where
  "str_nat n = (if n < 10 then [digit_char n] else str_nat (n div 10) @ [digit_char (n mod 10)])"

declare str_nat.simps [simp del]

text \<open>\<open>str(v)\<close> for the two kinds of value a metadata dictionary holds.\<close>

fun py_str :: "pyval \<Rightarrow> string" where
  "py_str (PInt i) = (if i < 0 then CHR ''-'' # str_nat (nat (- i)) else str_nat (nat i))"
| "py_str (PStr s) = s"

text \<open>Line 89 of the controller: \<open>int(v) if v.isdigit() else v\<close>.\<close>

definition convert_value :: "string \<Rightarrow> pyval" where
  "convert_value v = (if isdigit v then PInt (int (digits_value v)) else PStr v)"


section \<open>The world the handlers and the worker act on\<close>

text \<open>
  A cell of a pandas data frame, and a record as handed to the catalog store.
  \<open>NaN\<close>, \<open>PNone\<close> and \<open>NaT\<close> are the three values \<open>pd.isnull\<close> recognises.
\<close>

datatype cell = NaN | PNone | NaT | Text string | Number int | Timestamp int

type_synonym mongo_record = "(string \<times> cell) list"

datatype fs_op = OpMakedirs | OpSave | OpListdir | OpOpenWrite | OpRead | OpWrite | OpRemove | OpRmdir

text \<open>
  A directory a path can stand in while it is resolved: a session directory, \<open>UPLOAD_DIR\<close>
  itself, \<open>MERGE_DIR\<close>, or a directory outside both, named by the environment.
\<close>

datatype place = InSession string | InUpload | InMerge | Outside "string list"

text \<open>
  \<^item> \<open>redis_up\<close>, \<open>hashes\<close>, \<open>version\<close>: the Redis store; \<open>version\<close> counts the writes to a
    key, which is what \<open>WATCH\<close> observes.
  \<^item> \<open>jobs\<close>: the Celery broker's queue of \<open>process_chunks\<close> arguments.
  \<^item> \<open>upload_dir\<close>: \<open>UPLOAD_DIR\<close>, one directory per session, its entries in the order
    \<open>os.listdir\<close> yields them; \<open>merge_dir\<close>: \<open>MERGE_DIR\<close>.
  \<^item> \<open>fs_fault\<close>: the operations the operating system refuses (permissions, I/O errors,
    a name it does not accept, a regular file where a directory is to be made).
  \<^item> \<open>movies\<close>: the catalog collection; \<open>insert_fault\<close>: for a batch on which
    \<open>insert_many\<close> raises, the number of records written before the error.
  \<^item> \<open>upload_files\<close>: regular files lying directly in \<open>UPLOAD_DIR\<close>;
    \<open>outside_files\<close>: regular files outside both directories, by directory and name.
  \<^item> \<open>outside_step\<close>: the directories outside \<open>UPLOAD_DIR\<close> and \<open>MERGE_DIR\<close>: from a
    directory there and a path component (\<open>..\<close> included) the directory reached, if the
    component names one; \<open>upload_parent\<close> and \<open>merge_parent\<close>: the parent directories of
    \<open>UPLOAD_DIR\<close> and \<open>MERGE_DIR\<close>. The root directory is \<open>[]\<close>.
\<close>

record world =
  redis_up :: bool
  hashes :: "string \<rightharpoonup> (string \<rightharpoonup> string)"
  version :: "string \<Rightarrow> nat"
  jobs :: "string list"
  upload_dir :: "string \<rightharpoonup> (string \<times> bytes) list"
  merge_dir :: "string \<rightharpoonup> bytes"
  fs_fault :: "fs_op \<Rightarrow> string list \<Rightarrow> bool"
  movies :: "mongo_record list"
  insert_fault :: "mongo_record list \<Rightarrow> nat option"
  upload_files :: "string \<rightharpoonup> bytes"
  outside_files :: "(string list \<times> string) \<rightharpoonup> bytes"
  outside_step :: "string list \<Rightarrow> string \<Rightarrow> place option"
  upload_parent :: "string list"
  merge_parent :: "string list"

text \<open>
  A running system in which nothing has happened yet and nothing fails. \<open>UPLOAD_DIR\<close> is
  \<open>/uploads\<close> and \<open>MERGE_DIR\<close> is \<open>/merged\<close>, the only two directories of the root.
\<close>

definition fresh_world :: world where
  "fresh_world =
     \<lparr>redis_up = True, hashes = Map.empty, version = (\<lambda>_. 0), jobs = [],
      upload_dir = Map.empty, merge_dir = Map.empty, fs_fault = (\<lambda>_ _. False),
      movies = [], insert_fault = (\<lambda>_. None),
      upload_files = Map.empty, outside_files = Map.empty,
      outside_step = (\<lambda>dir c. if dir = [] \<and> c = ''..'' then Some (Outside [])
                               else if dir = [] \<and> c = ''uploads'' then Some InUpload
                               else if dir = [] \<and> c = ''merged'' then Some InMerge
                               else None),
      upload_parent = [], merge_parent = []\<rparr>"

definition hgetall :: "world \<Rightarrow> string \<Rightarrow> (string \<rightharpoonup> string)" where
  "hgetall w name = (case hashes w name of None \<Rightarrow> Map.empty | Some h \<Rightarrow> h)"

definition hset :: "string \<Rightarrow> (string \<rightharpoonup> string) \<Rightarrow> world \<Rightarrow> world" where
  "hset name mapping w =
     w\<lparr>hashes := (hashes w)(name \<mapsto> hgetall w name ++ mapping),
       version := (version w)(name := Suc (version w name))\<rparr>"

definition redis_exists :: "world \<Rightarrow> string \<Rightarrow> bool" where
  "redis_exists w name = (hashes w name \<noteq> None)"

datatype body =
    ErrorBody string
  | MetadataBody "string \<rightharpoonup> string"
  | ChunkCreated string string

type_synonym response = "body \<times> nat"


section \<open>Upload Session Manager: \<open>init_upload\<close>\<close>

text \<open>
  \<open>uuid\<close> is the string \<open>str(uuid4())\<close> returned for this call. The handler's three
  \<open>except\<close> clauses are the 400 (ValueError), 503 (ConnectionError) branches below.
\<close>

definition init_upload :: "string \<Rightarrow> int \<Rightarrow> world \<Rightarrow> response \<times> world" where
  "init_upload uuid total_chunks w =
     (if total_chunks < 1 then ((ErrorBody ''Invalid data: total_chunks'', 400), w)
      else
        let file_id = uuid;
            file_data = [''file_id'' \<mapsto> file_id,
                         ''total_chunks'' \<mapsto> py_str (PInt total_chunks),
                         ''chunks_uploaded'' \<mapsto> py_str (PInt 0),
                         ''status'' \<mapsto> ''Not Started'']
        in if \<not> redis_up w then ((ErrorBody ''Redis connection error'', 503), w)
           else
             let w' = hset file_id file_data w;
                 file_metadata = hgetall w' file_id
             in if file_metadata = Map.empty
                then ((ErrorBody ''Invalid data: File metadata not found after saving.'', 400), w')
                else ((MetadataBody file_metadata, 201), w'))"


section \<open>Metadata Updater: \<open>update_redis_metadata\<close>\<close>

text \<open>
  Every exception is caught and printed inside the function, so it always returns; the
  branches that raise leave the store as it was.
\<close>

definition update_redis_metadata :: "string \<Rightarrow> string \<Rightarrow> world \<Rightarrow> world" where
  "update_redis_metadata file_id status w =
     (if file_id = [] then w
      else if \<not> redis_up w then w
      else
        let metadata = hgetall w file_id
        in if metadata = Map.empty then w
           else hset file_id (metadata(''status'' \<mapsto> status)) w)"


section \<open>Decimal strings\<close>

lemma digit_char_props:
  assumes "d < 10"
  shows "is_digit_char (digit_char d) \<and> digit_value (digit_char d) = d"
proof -
  from assms have "d = 0 \<or> d = 1 \<or> d = 2 \<or> d = 3 \<or> d = 4 \<or> d = 5 \<or> d = 6 \<or> d = 7 \<or> d = 8 \<or> d = 9"
    by arith
  then show ?thesis
    by (elim disjE) (simp_all add: digit_char_def is_digit_char_def digit_value_def)
qed

lemma is_digit_char_digit_char: "d < 10 \<Longrightarrow> is_digit_char (digit_char d)"
  by (simp add: digit_char_props)

lemma digit_value_digit_char: "d < 10 \<Longrightarrow> digit_value (digit_char d) = d"
  by (simp add: digit_char_props)

lemma str_nat_nonempty: "str_nat n \<noteq> []"
  by (subst str_nat.simps) simp

lemma str_nat_digits: "list_all is_digit_char (str_nat n)"
proof (induction n rule: str_nat.induct)
  case (1 n)
  show ?case
  proof (cases "n < 10")
    case True
    then show ?thesis
      by (subst str_nat.simps) (simp add: is_digit_char_digit_char)
  next
    case False
    with "1" show ?thesis
      by (subst str_nat.simps) (simp add: is_digit_char_digit_char)
  qed
qed

lemma isdigit_str_nat: "isdigit (str_nat n)"
  by (simp add: isdigit_def str_nat_nonempty str_nat_digits)

lemma digits_value_snoc: "digits_value (s @ [c]) = 10 * digits_value s + digit_value c"
  by (simp add: digits_value_def)

lemma digits_value_str_nat: "digits_value (str_nat n) = n"
proof (induction n rule: str_nat.induct)
  case (1 n)
  show ?case
  proof (cases "n < 10")
    case True
    then show ?thesis
      by (subst str_nat.simps) (simp add: digits_value_def digit_value_digit_char)
  next
    case False
    with "1" have "digits_value (str_nat (n div 10)) = n div 10"
      by simp
    with False show ?thesis
      by (subst str_nat.simps) (simp add: digits_value_snoc digit_value_digit_char)
  qed
qed

lemma str_nat_small: "n < 10 \<Longrightarrow> str_nat n = [digit_char n]"
  by (subst str_nat.simps) simp

lemma py_str_0: "py_str (PInt 0) = ''0''"
  by (simp add: str_nat_small digit_char_def)

lemma py_str_3: "py_str (PInt 3) = ''3''"
  by (simp add: str_nat_small digit_char_def)

lemma convert_value_str_nat: "convert_value (str_nat n) = PInt (int n)"
  by (simp add: convert_value_def isdigit_str_nat digits_value_str_nat)

lemma py_str_nonneg: "0 \<le> i \<Longrightarrow> py_str (PInt i) = str_nat (nat i)"
  by simp


section \<open>The Redis commands\<close>

lemma hgetall_hset_same: "hgetall (hset name m w) name = hgetall w name ++ m"
  by (simp add: hgetall_def hset_def)

lemma hgetall_hset_other: "name' \<noteq> name \<Longrightarrow> hgetall (hset name m w) name' = hgetall w name'"
  by (simp add: hgetall_def hset_def)


section \<open>Session creation\<close>

text \<open>
  Claim C7. \<open>init_upload\<close> answers every \<open>total_chunks < 1\<close> with the 400 error and leaves
  the store as it was. For every \<open>total_chunks \<ge> 1\<close> (Redis reachable) it answers 201 with the
  record it has just written under the generated id: \<open>file_id\<close> the id, \<open>total_chunks\<close> the
  decimal string of the argument (read back by the upload handler as the same integer),
  \<open>chunks_uploaded\<close> \<open>0\<close> and \<open>status\<close> \<open>Not Started\<close>; when the id was not in use these are
  the record's only fields, and no other key of the store changes.
\<close>

theorem init_upload_creates_session:
  "(total_chunks < 1 \<longrightarrow>
      init_upload uuid total_chunks w = ((ErrorBody ''Invalid data: total_chunks'', 400), w))
   \<and> (1 \<le> total_chunks \<and> redis_up w \<longrightarrow>
        (\<exists>w'. init_upload uuid total_chunks w = ((MetadataBody (hgetall w' uuid), 201), w')
           \<and> hgetall w' uuid ''file_id'' = Some uuid
           \<and> hgetall w' uuid ''total_chunks'' = Some (py_str (PInt total_chunks))
           \<and> convert_value (py_str (PInt total_chunks)) = PInt total_chunks
           \<and> hgetall w' uuid ''chunks_uploaded'' = Some ''0''
           \<and> hgetall w' uuid ''status'' = Some ''Not Started''
           \<and> (hashes w uuid = None \<longrightarrow>
                 dom (hgetall w' uuid) = {''file_id'', ''total_chunks'', ''chunks_uploaded'', ''status''})
           \<and> (\<forall>k. k \<noteq> uuid \<longrightarrow> hashes w' k = hashes w k)))"
proof (intro conjI impI)
  assume "total_chunks < 1"
  then show "init_upload uuid total_chunks w = ((ErrorBody ''Invalid data: total_chunks'', 400), w)"
    by (simp add: init_upload_def)
next
  assume a: "1 \<le> total_chunks \<and> redis_up w"
  let ?fd = "[''file_id'' \<mapsto> uuid, ''total_chunks'' \<mapsto> py_str (PInt total_chunks),
              ''chunks_uploaded'' \<mapsto> py_str (PInt 0), ''status'' \<mapsto> ''Not Started'']"
  let ?w = "hset uuid ?fd w"
  have ne: "hgetall ?w uuid \<noteq> Map.empty"
    by (simp add: hgetall_hset_same del: py_str.simps)
  have run: "init_upload uuid total_chunks w = ((MetadataBody (hgetall ?w uuid), 201), ?w)"
    using a ne by (simp add: init_upload_def Let_def del: py_str.simps)
  have rt: "convert_value (py_str (PInt total_chunks)) = PInt total_chunks"
    using a by (simp add: convert_value_str_nat)
  note z = py_str_0
  have dm: "hashes w uuid = None \<longrightarrow>
     dom (hgetall ?w uuid) = {''file_id'', ''total_chunks'', ''chunks_uploaded'', ''status''}"
  proof
    assume "hashes w uuid = None"
    then have "hgetall w uuid = Map.empty"
      by (simp add: hgetall_def)
    then show "dom (hgetall ?w uuid) = {''file_id'', ''total_chunks'', ''chunks_uploaded'', ''status''}"
      by (auto simp add: hgetall_hset_same simp del: py_str.simps)
  qed
  have oth: "\<forall>k. k \<noteq> uuid \<longrightarrow> hashes ?w k = hashes w k"
    by (simp add: hset_def)
  show "\<exists>w'. init_upload uuid total_chunks w = ((MetadataBody (hgetall w' uuid), 201), w')
           \<and> hgetall w' uuid ''file_id'' = Some uuid
           \<and> hgetall w' uuid ''total_chunks'' = Some (py_str (PInt total_chunks))
           \<and> convert_value (py_str (PInt total_chunks)) = PInt total_chunks
           \<and> hgetall w' uuid ''chunks_uploaded'' = Some ''0''
           \<and> hgetall w' uuid ''status'' = Some ''Not Started''
           \<and> (hashes w uuid = None \<longrightarrow>
                 dom (hgetall w' uuid) = {''file_id'', ''total_chunks'', ''chunks_uploaded'', ''status''})
           \<and> (\<forall>k. k \<noteq> uuid \<longrightarrow> hashes w' k = hashes w k)"
    apply (rule exI [of _ ?w])
    using run rt dm oth z
    apply (simp add: hgetall_hset_same del: py_str.simps)
    done
qed

theorem init_upload_creates_session_witness:
  "fst (init_upload ''u1'' 0 fresh_world) = (ErrorBody ''Invalid data: total_chunks'', 400)
   \<and> hashes (snd (init_upload ''u1'' 0 fresh_world)) ''u1'' = None
   \<and> snd (fst (init_upload ''u1'' 3 fresh_world)) = 201
   \<and> hgetall (snd (init_upload ''u1'' 3 fresh_world)) ''u1'' ''total_chunks'' = Some ''3''
   \<and> hgetall (snd (init_upload ''u1'' 3 fresh_world)) ''u1'' ''chunks_uploaded'' = Some ''0''
   \<and> hgetall (snd (init_upload ''u1'' 3 fresh_world)) ''u1'' ''status'' = Some ''Not Started''"
proof -
  have up: "redis_up fresh_world" and none: "hashes fresh_world ''u1'' = None"
    by (simp_all add: fresh_world_def)
  from init_upload_creates_session [of 0 "''u1''" fresh_world]
  have a: "init_upload ''u1'' 0 fresh_world = ((ErrorBody ''Invalid data: total_chunks'', 400), fresh_world)"
    by simp
  from init_upload_creates_session [of 3 "''u1''" fresh_world] up
  obtain w' where b: "init_upload ''u1'' 3 fresh_world = ((MetadataBody (hgetall w' ''u1''), 201), w')"
    "hgetall w' ''u1'' ''total_chunks'' = Some (py_str (PInt 3))"
    "hgetall w' ''u1'' ''chunks_uploaded'' = Some ''0''"
    "hgetall w' ''u1'' ''status'' = Some ''Not Started''"
    by auto
  show ?thesis
    using a b none by (simp add: py_str_3 del: py_str.simps)
qed


section \<open>The frame of the Metadata Updater\<close>

text \<open>
  Claim C10. On an existing session record, \<open>update_redis_metadata\<close> sets \<open>status\<close> to the
  given string and leaves every other field of the record (\<open>file_id\<close>, \<open>total_chunks\<close>,
  \<open>chunks_uploaded\<close> among them) and every other key of the store as they were.
\<close>

theorem update_redis_metadata_frame:
  "file_id \<noteq> [] \<Longrightarrow> redis_up w \<Longrightarrow> hgetall w file_id \<noteq> Map.empty \<Longrightarrow>
     hgetall (update_redis_metadata file_id status w) file_id ''status'' = Some status
     \<and> (\<forall>f. f \<noteq> ''status'' \<longrightarrow>
           hgetall (update_redis_metadata file_id status w) file_id f = hgetall w file_id f)
     \<and> (\<forall>k. k \<noteq> file_id \<longrightarrow> hashes (update_redis_metadata file_id status w) k = hashes w k)"
proof (intro conjI allI impI)
  assume a: "file_id \<noteq> []" "redis_up w" "hgetall w file_id \<noteq> Map.empty"
  then have run: "update_redis_metadata file_id status w
      = hset file_id ((hgetall w file_id)(''status'' \<mapsto> status)) w"
    by (simp add: update_redis_metadata_def Let_def)
  show "hgetall (update_redis_metadata file_id status w) file_id ''status'' = Some status"
    by (simp add: run hgetall_hset_same)
  show "hgetall (update_redis_metadata file_id status w) file_id f = hgetall w file_id f"
    if "f \<noteq> ''status''" for f
    using that by (simp add: run hgetall_hset_same map_add_def split: option.splits)
  show "hashes (update_redis_metadata file_id status w) k = hashes w k" if "k \<noteq> file_id" for k
    using that by (simp add: run hset_def)
qed


theorem update_redis_metadata_frame_witness:
  "hgetall (update_redis_metadata ''u1'' ''Completed'' (snd (init_upload ''u1'' 3 fresh_world))) ''u1''
     ''status'' = Some ''Completed''
   \<and> hgetall (update_redis_metadata ''u1'' ''Completed'' (snd (init_upload ''u1'' 3 fresh_world))) ''u1''
     ''total_chunks'' = Some ''3''
   \<and> hgetall (update_redis_metadata ''u1'' ''Completed'' (snd (init_upload ''u1'' 3 fresh_world))) ''u1''
     ''chunks_uploaded'' = Some ''0''
   \<and> hgetall (update_redis_metadata ''u1'' ''Completed'' (snd (init_upload ''u1'' 3 fresh_world))) ''u1''
     ''file_id'' = Some ''u1''"
proof -
  let ?w = "snd (init_upload ''u1'' 3 fresh_world)"
  have w: "?w = hset ''u1'' [''file_id'' \<mapsto> ''u1'', ''total_chunks'' \<mapsto> ''3'',
      ''chunks_uploaded'' \<mapsto> ''0'', ''status'' \<mapsto> ''Not Started''] fresh_world"
    by (simp add: init_upload_def Let_def fresh_world_def hgetall_hset_same str_nat_small digit_char_def)
  have h: "''u1'' \<noteq> []" "redis_up ?w" "hgetall ?w ''u1'' \<noteq> Map.empty"
    unfolding w by (simp_all add: hgetall_hset_same) (simp add: hset_def fresh_world_def)
  have v: "hgetall ?w ''u1'' ''total_chunks'' = Some ''3''"
    "hgetall ?w ''u1'' ''chunks_uploaded'' = Some ''0''"
    "hgetall ?w ''u1'' ''file_id'' = Some ''u1''"
    unfolding w by (simp_all add: hgetall_hset_same)
  show ?thesis
    using update_redis_metadata_frame [OF h, of "''Completed''"] v by simp
qed



section \<open>Chunk Receiver and Completion Detector: \<open>create_chunk\<close>\<close>

text \<open>
  The request's form fields and file part; a missing field is \<open>None\<close>. The file part is
  the pair of its file name and payload: a \<open>FileStorage\<close> with an empty file name is falsy.

  A session directory is \<open>UPLOAD_DIR\<close> joined with the session id; the ids of the store
  are the strings \<open>init_upload\<close> generated, which are plain file names. The chunk id is any
  string the client sent, and \<open>os.path.join(file_dir, chunk_id)\<close> is opened for writing as
  it is: \<open>locate\<close> resolves it as the operating system does, component by component.

  \<open>update_metadata\<close> is the \<open>while True\<close> loop of lines 82 to 113. Attempt \<open>i\<close> watches the
  key, reads the record, increments, enqueues the task when the counter reaches the total
  (line 99, before the transaction is sent), and then executes \<open>MULTI/HSET/EXEC\<close>. The
  argument \<open>others\<close> is what the other clients of the store do between this attempt's read
  and its \<open>EXEC\<close>; a changed version of the key is the \<open>WatchError\<close> that restarts the
  loop. The loop has no other exit than a commit or an error, so it is a partial function:
  \<open>None\<close> is a run that never returns. The second component of the result counts the
  attempts made.
\<close>

datatype py_error = KeyError | TypeError | ValueError | OSError

record chunk_request =
  form_file_id :: "string option"
  form_chunk_id :: "string option"
  form_file :: "(string \<times> bytes) option"

text \<open>
  A plain file name: what \<open>os.path.join\<close> appends to the directory as one component that
  names a file in it.
\<close>

definition plain_name :: "string \<Rightarrow> bool" where
  "plain_name n = (n \<noteq> [] \<and> CHR ''/'' \<notin> set n \<and> n \<noteq> ''.'' \<and> n \<noteq> ''..'')"

text \<open>\<open>os.listdir\<close> of a session directory (empty when there is none).\<close>

definition listdir :: "world \<Rightarrow> string \<Rightarrow> (string \<times> bytes) list" where
  "listdir w d = (case upload_dir w d of None \<Rightarrow> [] | Some es \<Rightarrow> es)"

text \<open>\<open>os.makedirs(file_dir, exist_ok=True)\<close>; \<open>None\<close> is the exception.\<close>

definition makedirs :: "string \<Rightarrow> world \<Rightarrow> world option" where
  "makedirs d w =
     (if fs_fault w OpMakedirs [d] then None
      else Some (case upload_dir w d of
                   None \<Rightarrow> w\<lparr>upload_dir := (upload_dir w)(d \<mapsto> [])\<rparr>
                 | Some es \<Rightarrow> w))"

text \<open>
  The components of a path, as \<open>split('/')\<close> gives them; an empty component and \<open>.\<close> stay
  in the directory, as in path resolution.
\<close>

fun split_path :: "string \<Rightarrow> string list" where
  "split_path [] = [[]]"
| "split_path (c # s) =
     (if c = CHR ''/'' then [] # split_path s
      else (case split_path s of [] \<Rightarrow> [[c]] | x # xs \<Rightarrow> (c # x) # xs))"

text \<open>
  One step of path resolution: the directory reached from a directory by a component that
  is not the last. A session directory holds regular files only, so from it only \<open>..\<close>
  leads on; from \<open>UPLOAD_DIR\<close> a component leads into the session directory of that name,
  if there is one.
\<close>

definition enter :: "world \<Rightarrow> place \<Rightarrow> string \<Rightarrow> place option" where
  "enter w pl c =
     (if c = [] \<or> c = ''.'' then Some pl
      else case pl of
             InSession d \<Rightarrow> if c = ''..'' then Some InUpload else None
           | InUpload \<Rightarrow>
               if c = ''..'' then Some (Outside (upload_parent w))
               else if upload_dir w c \<noteq> None then Some (InSession c)
               else None
           | InMerge \<Rightarrow> if c = ''..'' then Some (Outside (merge_parent w)) else None
           | Outside dir \<Rightarrow> outside_step w dir c)"

fun walk :: "world \<Rightarrow> place \<Rightarrow> string list \<Rightarrow> place option" where
  "walk w pl [] = Some pl"
| "walk w pl (c # cs) = (case enter w pl c of None \<Rightarrow> None | Some pl' \<Rightarrow> walk w pl' cs)"

text \<open>
  The regular file a write ends in: a chunk of a session directory, a file directly in
  \<open>UPLOAD_DIR\<close>, a file of \<open>MERGE_DIR\<close>, or a file of a directory outside.
\<close>

datatype target =
    ChunkFile string string
  | UploadFile string
  | MergeFile string
  | OutsideFile "string list" string

text \<open>
  Where \<open>os.path.join(file_dir, chunk_id)\<close> leads when it is opened for writing, or \<open>None\<close>
  when the open raises: a directory on the way that does not exist, a last component that
  names a directory or is empty. An absolute chunk id makes \<open>os.path.join\<close> drop the
  directory, so resolution starts at the root.
\<close>

definition locate :: "world \<Rightarrow> string \<Rightarrow> string \<Rightarrow> target option" where
  "locate w file_id chunk_id =
     (if upload_dir w file_id = None then None
      else
        let components = split_path chunk_id;
            start = (case chunk_id of
                       [] \<Rightarrow> InSession file_id
                     | c # s \<Rightarrow> if c = CHR ''/'' then Outside [] else InSession file_id)
        in case walk w start (butlast components) of
             None \<Rightarrow> None
           | Some pl \<Rightarrow>
               let name = last components
               in if name = [] \<or> name = ''.'' \<or> name = ''..'' then None
                  else (case pl of
                          InSession d \<Rightarrow>
                            if upload_dir w d = None then None else Some (ChunkFile d name)
                        | InUpload \<Rightarrow>
                            if upload_dir w name \<noteq> None then None else Some (UploadFile name)
                        | InMerge \<Rightarrow> Some (MergeFile name)
                        | Outside dir \<Rightarrow>
                            if outside_step w dir name \<noteq> None then None
                            else Some (OutsideFile dir name)))"

text \<open>
  Writing a file: an entry of the same name is replaced, a new one is added. A regular file
  written directly into \<open>UPLOAD_DIR\<close> is in the way of a session directory of its name:
  from then on \<open>os.makedirs\<close> of that directory raises \<open>FileExistsError\<close>.
\<close>

fun write_target :: "target \<Rightarrow> bytes \<Rightarrow> world \<Rightarrow> world" where
  "write_target (ChunkFile d n) payload w =
     w\<lparr>upload_dir := (upload_dir w)(d \<mapsto> AList.update n payload (listdir w d))\<rparr>"
| "write_target (UploadFile n) payload w =
     w\<lparr>upload_files := (upload_files w)(n \<mapsto> payload),
       fs_fault := (\<lambda>op args. (op = OpMakedirs \<and> args = [n]) \<or> fs_fault w op args)\<rparr>"
| "write_target (MergeFile n) payload w = w\<lparr>merge_dir := (merge_dir w)(n \<mapsto> payload)\<rparr>"
| "write_target (OutsideFile dir n) payload w =
     w\<lparr>outside_files := (outside_files w)((dir, n) \<mapsto> payload)\<rparr>"

text \<open>The bytes stored in a file, if it exists.\<close>

fun stored :: "world \<Rightarrow> target \<Rightarrow> bytes option" where
  "stored w (ChunkFile d n) = map_of (listdir w d) n"
| "stored w (UploadFile n) = upload_files w n"
| "stored w (MergeFile n) = merge_dir w n"
| "stored w (OutsideFile dir n) = outside_files w (dir, n)"

text \<open>
  \<open>file_chunk.save(chunk_path)\<close>; \<open>None\<close> is the exception: the operating system refuses
  the write, or the path leads nowhere.
\<close>

definition save_chunk :: "string \<Rightarrow> string \<Rightarrow> bytes \<Rightarrow> world \<Rightarrow> world option" where
  "save_chunk d name payload w =
     (if fs_fault w OpSave [d, name] then None
      else case locate w d name of
             None \<Rightarrow> None
           | Some t \<Rightarrow> Some (write_target t payload w))"

text \<open>
  Lines 88 to 100, the part of an attempt that touches no store. \<open>converted\<close> is the
  dictionary comprehension of line 89 and \<open>stringify\<close> the one of line 104. The result is
  the updated dictionary and whether \<open>process_chunks.delay\<close> is called; a missing key
  raises \<open>KeyError\<close>, and adding one to a counter that is no integer raises \<open>TypeError\<close>.
\<close>

definition converted :: "(string \<rightharpoonup> string) \<Rightarrow> (string \<rightharpoonup> pyval)" where
  "converted raw = (\<lambda>k. map_option convert_value (raw k))"

definition stringify :: "(string \<rightharpoonup> pyval) \<Rightarrow> (string \<rightharpoonup> string)" where
  "stringify file_metadata = (\<lambda>k. map_option py_str (file_metadata k))"

definition increment_and_decide ::
    "(string \<rightharpoonup> string) \<Rightarrow> py_error + ((string \<rightharpoonup> pyval) \<times> bool)" where
  "increment_and_decide raw =
     (let file_metadata = converted raw
      in case file_metadata ''chunks_uploaded'' of
           None \<Rightarrow> Inl KeyError
         | Some (PStr s) \<Rightarrow> Inl TypeError
         | Some (PInt n) \<Rightarrow>
             let file_metadata = file_metadata(''chunks_uploaded'' \<mapsto> PInt (n + 1))
             in (case file_metadata ''total_chunks'' of
                   None \<Rightarrow> Inl KeyError
                 | Some total_chunks \<Rightarrow>
                     if PInt (n + 1) = total_chunks
                     then Inr (file_metadata(''status'' \<mapsto> PStr ''Processing''), True)
                     else Inr (file_metadata, False)))"

datatype loop_exit = Committed | Aborted response

partial_function (option) update_metadata ::
    "(nat \<Rightarrow> world \<Rightarrow> world) \<Rightarrow> string \<Rightarrow> nat \<Rightarrow> world \<Rightarrow> (loop_exit \<times> nat \<times> world) option" where
  "update_metadata others file_id i w =
     (if \<not> redis_up w
      then Some (Aborted (ErrorBody ''Redis error while updating metadata'', 500), Suc i, w)
      else
        let seen = version w file_id;
            raw = hgetall w file_id
        in case increment_and_decide raw of
             Inl e \<Rightarrow> Some (Aborted (ErrorBody ''Error updating Redis metadata'', 500), Suc i, w)
           | Inr (file_metadata, enqueue) \<Rightarrow>
               let w1 = (if enqueue then w\<lparr>jobs := jobs w @ [file_id]\<rparr> else w);
                   w2 = others i w1
               in if \<not> redis_up w2
                  then Some (Aborted (ErrorBody ''Redis error while updating metadata'', 500), Suc i, w2)
                  else if version w2 file_id \<noteq> seen
                  then update_metadata others file_id (Suc i) w2
                  else Some (Committed, Suc i,
                             hset file_id (stringify file_metadata) w2))"


text \<open>
  The handler. \<open>quiet\<close> is the absence of other clients. Every \<open>return jsonify(...), code\<close>
  of the source is a branch; a handler that does not return is \<open>None\<close>.
\<close>

definition quiet :: "nat \<Rightarrow> world \<Rightarrow> world" where
  "quiet i w = w"

definition create_chunk ::
    "(nat \<Rightarrow> world \<Rightarrow> world) \<Rightarrow> chunk_request \<Rightarrow> world \<Rightarrow> (response \<times> world) option" where
  "create_chunk others req w =
     (case (form_file_id req, form_chunk_id req, form_file req) of
        (Some file_id, Some chunk_id, Some (filename, payload)) \<Rightarrow>
          if file_id = [] \<or> chunk_id = [] \<or> filename = []
          then Some ((ErrorBody ''Missing required fields'', 400), w)
          else if \<not> redis_up w then Some ((ErrorBody ''Internal server error'', 500), w)
          else if \<not> redis_exists w file_id then Some ((ErrorBody ''Invalid file_id'', 404), w)
          else (case makedirs file_id w of
                  None \<Rightarrow> Some ((ErrorBody ''Failed to create directory'', 500), w)
                | Some w1 \<Rightarrow>
                    (case save_chunk file_id chunk_id payload w1 of
                       None \<Rightarrow> Some ((ErrorBody ''Failed to save file chunk'', 500), w1)
                     | Some w2 \<Rightarrow>
                         (case update_metadata others file_id 0 w2 of
                            None \<Rightarrow> None
                          | Some (Committed, n, w3) \<Rightarrow>
                              Some ((ChunkCreated file_id chunk_id, 201), w3)
                          | Some (Aborted r, n, w3) \<Rightarrow> Some (r, w3))))
      | _ \<Rightarrow> Some ((ErrorBody ''Missing required fields'', 400), w))"

text \<open>
  The world after a whole request of another client, served without interruption.
\<close>

definition concurrent_request :: "chunk_request \<Rightarrow> world \<Rightarrow> world" where
  "concurrent_request req w = (case create_chunk quiet req w of Some (r, w') \<Rightarrow> w' | None \<Rightarrow> w)"

text \<open>
  The integers the handler reads from a session record: \<open>chunks_uploaded\<close> and
  \<open>total_chunks\<close>, when they are decimal strings.
\<close>

definition counter :: "world \<Rightarrow> string \<Rightarrow> nat option" where
  "counter w file_id =
     (case hgetall w file_id ''chunks_uploaded'' of
        None \<Rightarrow> None
      | Some v \<Rightarrow> if isdigit v then Some (digits_value v) else None)"

definition total_of :: "world \<Rightarrow> string \<Rightarrow> nat option" where
  "total_of w file_id =
     (case hgetall w file_id ''total_chunks'' of
        None \<Rightarrow> None
      | Some v \<Rightarrow> if isdigit v then Some (digits_value v) else None)"

text \<open>The world after one attempt of the loop that nobody interrupts.\<close>

definition committed_world :: "string \<Rightarrow> world \<Rightarrow> world" where
  "committed_world file_id w =
     (case increment_and_decide (hgetall w file_id) of
        Inl e \<Rightarrow> w
      | Inr (file_metadata, enqueue) \<Rightarrow>
          hset file_id (stringify file_metadata)
            (if enqueue then w\<lparr>jobs := jobs w @ [file_id]\<rparr> else w))"

lemma hset_fields [simp]:
  "redis_up (hset n m w) = redis_up w"
  "jobs (hset n m w) = jobs w"
  "upload_dir (hset n m w) = upload_dir w"
  "merge_dir (hset n m w) = merge_dir w"
  "fs_fault (hset n m w) = fs_fault w"
  "movies (hset n m w) = movies w"
  "insert_fault (hset n m w) = insert_fault w"
  "version (hset n m w) n = Suc (version w n)"
  "hashes (hset n m w) n = Some (hgetall w n ++ m)"
  by (simp_all add: hset_def)

lemma hset_files [simp]:
  "upload_files (hset n m w) = upload_files w"
  "outside_files (hset n m w) = outside_files w"
  "outside_step (hset n m w) = outside_step w"
  "upload_parent (hset n m w) = upload_parent w"
  "merge_parent (hset n m w) = merge_parent w"
  by (simp_all add: hset_def)

lemma committed_world_files [simp]:
  "upload_files (committed_world g w) = upload_files w"
  "outside_files (committed_world g w) = outside_files w"
  "outside_step (committed_world g w) = outside_step w"
  "upload_parent (committed_world g w) = upload_parent w"
  "merge_parent (committed_world g w) = merge_parent w"
  by (simp_all add: committed_world_def split: sum.splits prod.splits)

lemma hset_other [simp]:
  "k \<noteq> n \<Longrightarrow> version (hset n m w) k = version w k"
  "k \<noteq> n \<Longrightarrow> hashes (hset n m w) k = hashes w k"
  by (simp_all add: hset_def)

lemma hgetall_jobs [simp]: "hgetall (w\<lparr>jobs := js\<rparr>) = hgetall w"
  by (simp add: hgetall_def fun_eq_iff)

lemma decide_counter:
  assumes "counter w f = Some c" "total_of w f = Some t"
  shows "\<exists>md. increment_and_decide (hgetall w f) = Inr (md, Suc c = t)
           \<and> md ''chunks_uploaded'' = Some (PInt (int (Suc c)))
           \<and> md ''total_chunks'' = Some (PInt (int t))"
  using assms
  by (auto simp add: counter_def total_of_def increment_and_decide_def converted_def
      convert_value_def Let_def split: option.splits if_splits)

lemma committed_world_props:
  assumes "counter w f = Some c" "total_of w f = Some t"
  shows "counter (committed_world f w) f = Some (Suc c)"
    and "total_of (committed_world f w) f = Some t"
    and "jobs (committed_world f w) = jobs w @ (if Suc c = t then [f] else [])"
    and "version (committed_world f w) f = Suc (version w f)"
    and "redis_up (committed_world f w) = redis_up w"
    and "upload_dir (committed_world f w) = upload_dir w"
    and "fs_fault (committed_world f w) = fs_fault w"
    and "hashes (committed_world f w) f \<noteq> None"
proof -
  from decide_counter [OF assms] obtain md where
    d: "increment_and_decide (hgetall w f) = Inr (md, Suc c = t)"
    and m: "md ''chunks_uploaded'' = Some (PInt (int (Suc c)))"
       "md ''total_chunks'' = Some (PInt (int t))"
    by blast
  have cw: "committed_world f w
      = hset f (stringify md) (if Suc c = t then w\<lparr>jobs := jobs w @ [f]\<rparr> else w)"
    by (simp add: committed_world_def d)
  have s: "stringify md ''chunks_uploaded'' = Some (str_nat (Suc c))"
    "stringify md ''total_chunks'' = Some (str_nat t)"
  proof -
    have "nat (1 + int c) = Suc c"
      by arith
    with m show "stringify md ''chunks_uploaded'' = Some (str_nat (Suc c))"
      by (simp add: stringify_def)
    from m show "stringify md ''total_chunks'' = Some (str_nat t)"
      by (simp add: stringify_def)
  qed
  show "counter (committed_world f w) f = Some (Suc c)"
    unfolding cw counter_def
    by (simp add: hgetall_hset_same s isdigit_str_nat digits_value_str_nat)
  show "total_of (committed_world f w) f = Some t"
    unfolding cw total_of_def
    by (simp add: hgetall_hset_same s isdigit_str_nat digits_value_str_nat)
  show "jobs (committed_world f w) = jobs w @ (if Suc c = t then [f] else [])"
    by (simp add: cw)
  show "version (committed_world f w) f = Suc (version w f)"
    by (simp add: cw hset_def)
  show "redis_up (committed_world f w) = redis_up w"
    by (simp add: cw)
  show "upload_dir (committed_world f w) = upload_dir w"
    by (simp add: cw)
  show "fs_fault (committed_world f w) = fs_fault w"
    by (simp add: cw)
  show "hashes (committed_world f w) f \<noteq> None"
    by (simp add: cw)
qed

lemma update_metadata_quiet:
  assumes "redis_up w" "counter w f = Some c" "total_of w f = Some t"
  shows "update_metadata quiet f i w = Some (Committed, Suc i, committed_world f w)"
proof -
  from decide_counter [OF assms(2,3)] obtain md where
    d: "increment_and_decide (hgetall w f) = Inr (md, Suc c = t)"
    by blast
  show ?thesis
    using assms(1)
    by (subst update_metadata.simps) (simp add: d quiet_def committed_world_def Let_def)
qed


section \<open>One upload among others\<close>

text \<open>
  \<open>listdir\<close> is \<open>os.listdir\<close> of a session directory (empty when there is none), and
  \<open>chunk_written\<close> the disk after \<open>makedirs\<close> and \<open>save\<close> of one chunk. \<open>committed_world\<close> is
  the store after one uninterrupted transaction of the loop.
  \<open>concurrent_request\<close> is another client's whole upload request, served without
  interruption while this request is between its read and its \<open>EXEC\<close>.
  \<open>burst n\<close> lets such a request commit during each of the first \<open>n\<close> attempts, \<open>storm\<close>
  during every attempt.
\<close>

definition chunk_written :: "string \<Rightarrow> string \<Rightarrow> bytes \<Rightarrow> world \<Rightarrow> world" where
  "chunk_written d name payload w =
     w\<lparr>upload_dir := (upload_dir w)(d \<mapsto> AList.update name payload (listdir w d))\<rparr>"

lemma update_metadata_quiet_unfold:
  "update_metadata quiet f i w =
     (if \<not> redis_up w
      then Some (Aborted (ErrorBody ''Redis error while updating metadata'', 500), Suc i, w)
      else case increment_and_decide (hgetall w f) of
             Inl e \<Rightarrow> Some (Aborted (ErrorBody ''Error updating Redis metadata'', 500), Suc i, w)
           | Inr x \<Rightarrow> Some (Committed, Suc i, committed_world f w))"
  by (subst update_metadata.simps)
     (auto simp add: quiet_def committed_world_def Let_def split: sum.splits)

lemma split_path_plain: "CHR ''/'' \<notin> set n \<Longrightarrow> split_path n = [n]"
  by (induction n) auto

lemma locate_plain:
  assumes "plain_name n" "upload_dir w d \<noteq> None"
  shows "locate w d n = Some (ChunkFile d n)"
proof -
  from assms(1) have s: "split_path n = [n]"
    and n: "n \<noteq> []" "n \<noteq> ''.''" "n \<noteq> ''..''" and h: "CHR ''/'' \<notin> set n"
    by (simp_all add: plain_name_def split_path_plain)
  from n(1) h obtain c r where c: "n = c # r" "c \<noteq> CHR ''/''"
    by (cases n) auto
  have "(case n of [] \<Rightarrow> InSession d | c # r \<Rightarrow> if c = CHR ''/'' then Outside [] else InSession d)
          = InSession d"
    using c by simp
  then show ?thesis
    using s n assms(2) by (simp add: locate_def Let_def)
qed

lemma makedirs_save:
  assumes "\<not> fs_fault w OpMakedirs [d]" "plain_name n" "\<not> fs_fault w OpSave [d, n]"
  shows "\<exists>w1. makedirs d w = Some w1 \<and> save_chunk d n p w1 = Some (chunk_written d n p w)"
proof (cases "upload_dir w d")
  case None
  let ?w1 = "w\<lparr>upload_dir := (upload_dir w)(d \<mapsto> [])\<rparr>"
  have m: "makedirs d w = Some ?w1"
    using assms None by (simp add: makedirs_def)
  have l: "locate ?w1 d n = Some (ChunkFile d n)"
    by (rule locate_plain [OF assms(2)]) simp
  have "save_chunk d n p ?w1 = Some (chunk_written d n p w)"
    using assms(3) None l by (simp add: save_chunk_def chunk_written_def listdir_def)
  with m show ?thesis
    by blast
next
  case (Some es)
  have m: "makedirs d w = Some w"
    using assms Some by (simp add: makedirs_def)
  have l: "locate w d n = Some (ChunkFile d n)"
    by (rule locate_plain [OF assms(2)]) (simp add: Some)
  have "save_chunk d n p w = Some (chunk_written d n p w)"
    using assms(3) l by (simp add: save_chunk_def chunk_written_def)
  with m show ?thesis
    by blast
qed

lemma hgetall_upload_dir [simp]: "hgetall (w\<lparr>upload_dir := u\<rparr>) = hgetall w"
  by (simp add: hgetall_def fun_eq_iff)

lemma chunk_written_fields [simp]:
  "hgetall (chunk_written d n p w) = hgetall w"
  "redis_up (chunk_written d n p w) = redis_up w"
  "jobs (chunk_written d n p w) = jobs w"
  "version (chunk_written d n p w) = version w"
  "hashes (chunk_written d n p w) = hashes w"
  "fs_fault (chunk_written d n p w) = fs_fault w"
  "counter (chunk_written d n p w) = counter w"
  "total_of (chunk_written d n p w) = total_of w"
  by (simp_all add: chunk_written_def counter_def total_of_def fun_eq_iff)

lemma chunk_written_files [simp]:
  "upload_files (chunk_written d n p w) = upload_files w"
  "outside_files (chunk_written d n p w) = outside_files w"
  "outside_step (chunk_written d n p w) = outside_step w"
  "upload_parent (chunk_written d n p w) = upload_parent w"
  "merge_parent (chunk_written d n p w) = merge_parent w"
  "merge_dir (chunk_written d n p w) = merge_dir w"
  by (simp_all add: chunk_written_def)

lemma counter_exists: "counter w f = Some c \<Longrightarrow> redis_exists w f"
  by (auto simp add: counter_def redis_exists_def hgetall_def split: option.splits)

lemma create_chunk_quiet_ok:
  assumes req: "form_file_id req = Some f" "form_chunk_id req = Some n" "form_file req = Some (fn, p)"
    and ne: "f \<noteq> []" "fn \<noteq> []"
    and pl: "plain_name n"
    and fs: "\<not> fs_fault w OpMakedirs [f]" "\<not> fs_fault w OpSave [f, n]"
    and se: "redis_up w" "counter w f = Some c" "total_of w f = Some t"
  shows "create_chunk quiet req w
           = Some ((ChunkCreated f n, 201), committed_world f (chunk_written f n p w))"
proof -
  from makedirs_save [OF fs(1) pl fs(2)] obtain w1 where
    m: "makedirs f w = Some w1" "save_chunk f n p w1 = Some (chunk_written f n p w)"
    by blast
  have n0: "n \<noteq> []"
    using pl by (simp add: plain_name_def)
  have u: "update_metadata quiet f 0 (chunk_written f n p w)
      = Some (Committed, Suc 0, committed_world f (chunk_written f n p w))"
    by (rule update_metadata_quiet [where c = c and t = t]) (simp_all add: se)
  show ?thesis
    using req ne n0 se(1) counter_exists [OF se(2)] m u
    by (simp add: create_chunk_def)
qed


definition upload_ready :: "chunk_request \<Rightarrow> string \<Rightarrow> world \<Rightarrow> bool" where
  "upload_ready req f w =
     (\<exists>n fn p. form_file_id req = Some f \<and> form_chunk_id req = Some n \<and> form_file req = Some (fn, p)
        \<and> f \<noteq> [] \<and> fn \<noteq> [] \<and> plain_name n
        \<and> \<not> fs_fault w OpMakedirs [f] \<and> \<not> fs_fault w OpSave [f, n] \<and> redis_up w)"

lemma concurrent_request_props:
  assumes "upload_ready req f w" "counter w f = Some c" "total_of w f = Some t"
  shows "upload_ready req f (concurrent_request req w)"
    and "counter (concurrent_request req w) f = Some (Suc c)"
    and "total_of (concurrent_request req w) f = Some t"
    and "version (concurrent_request req w) f = Suc (version w f)"
    and "jobs (concurrent_request req w) = jobs w @ (if Suc c = t then [f] else [])"
proof -
  from assms(1) obtain n fn p where
    r: "form_file_id req = Some f" "form_chunk_id req = Some n" "form_file req = Some (fn, p)"
      "f \<noteq> []" "fn \<noteq> []" "plain_name n"
      "\<not> fs_fault w OpMakedirs [f]" "\<not> fs_fault w OpSave [f, n]" "redis_up w"
    by (auto simp add: upload_ready_def)
  let ?v = "chunk_written f n p w"
  have cr: "concurrent_request req w = committed_world f ?v"
    using create_chunk_quiet_ok [OF r(1,2,3,4,5,6,7,8,9) assms(2,3)]
    by (simp add: concurrent_request_def)
  have cv: "counter ?v f = Some c" "total_of ?v f = Some t"
    using assms by simp_all
  note p = committed_world_props [OF cv]
  show "upload_ready req f (concurrent_request req w)"
    using r p(5,7) by (simp add: upload_ready_def cr)
  show "counter (concurrent_request req w) f = Some (Suc c)"
    using p(1) by (simp add: cr)
  show "total_of (concurrent_request req w) f = Some t"
    using p(2) by (simp add: cr)
  show "version (concurrent_request req w) f = Suc (version w f)"
    using p(4) by (simp add: cr)
  show "jobs (concurrent_request req w) = jobs w @ (if Suc c = t then [f] else [])"
    using p(3) by (simp add: cr)
qed

lemma upload_ready_jobs [simp]: "upload_ready req f (w\<lparr>jobs := js\<rparr>) = upload_ready req f w"
  by (simp add: upload_ready_def)

lemma counter_jobs [simp]:
  "counter (w\<lparr>jobs := js\<rparr>) = counter w" "total_of (w\<lparr>jobs := js\<rparr>) = total_of w"
  by (simp_all add: counter_def total_of_def fun_eq_iff)

text \<open>One attempt whose commit is rejected because another upload committed meanwhile.\<close>

lemma update_metadata_conflict:
  assumes "upload_ready req f w" "counter w f = Some c" "total_of w f = Some t"
    and "others i = concurrent_request req"
  shows "update_metadata others f i w
           = update_metadata others f (Suc i)
               (concurrent_request req (if Suc c = t then w\<lparr>jobs := jobs w @ [f]\<rparr> else w))"
proof -
  let ?w1 = "if Suc c = t then w\<lparr>jobs := jobs w @ [f]\<rparr> else w"
  from decide_counter [OF assms(2,3)] obtain md where
    d: "increment_and_decide (hgetall w f) = Inr (md, Suc c = t)"
    by blast
  have r1: "upload_ready req f ?w1" "counter ?w1 f = Some c" "total_of ?w1 f = Some t"
    using assms by simp_all
  have up: "redis_up w"
    using assms(1) by (auto simp add: upload_ready_def)
  have up2: "redis_up (concurrent_request req ?w1)"
    using concurrent_request_props(1) [OF r1] by (auto simp add: upload_ready_def)
  have v: "version (concurrent_request req ?w1) f = Suc (version w f)"
    using concurrent_request_props(4) [OF r1] by simp
  show ?thesis
    by (subst update_metadata.simps) (simp add: up d assms(4) Let_def up2 v)
qed

text \<open>One attempt during which nobody else writes.\<close>

lemma update_metadata_commit:
  assumes "redis_up w" "counter w f = Some c" "total_of w f = Some t"
    and "others i = (\<lambda>w. w)"
  shows "update_metadata others f i w = Some (Committed, Suc i, committed_world f w)"
proof -
  from decide_counter [OF assms(2,3)] obtain md where
    d: "increment_and_decide (hgetall w f) = Inr (md, Suc c = t)"
    by blast
  show ?thesis
    using assms(1)
    by (subst update_metadata.simps) (simp add: d assms(4) committed_world_def Let_def)
qed

definition storm :: "chunk_request \<Rightarrow> nat \<Rightarrow> world \<Rightarrow> world" where
  "storm req i = concurrent_request req"

definition burst :: "nat \<Rightarrow> chunk_request \<Rightarrow> nat \<Rightarrow> world \<Rightarrow> world" where
  "burst n req i = (if i < n then concurrent_request req else (\<lambda>w. w))"

lemma storm_never_returns_aux:
  assumes "update_metadata others f i w = Some y"
  shows "others = storm req \<longrightarrow> upload_ready req f w \<longrightarrow> (\<exists>c. counter w f = Some c)
           \<longrightarrow> (\<exists>t. total_of w f = Some t) \<longrightarrow> False"
proof (rule update_metadata.raw_induct
    [where P = "\<lambda>others f i w (y :: loop_exit \<times> nat \<times> world). others = storm req \<longrightarrow>
       upload_ready req f w \<longrightarrow> (\<exists>c. counter w f = Some c) \<longrightarrow> (\<exists>t. total_of w f = Some t) \<longrightarrow> False",
     OF _ assms], goal_cases)
  case (1 um others f i w y)
  show ?case
  proof (intro impI)
    assume o: "others = storm req" and r: "upload_ready req f w"
      and c: "\<exists>c. counter w f = Some c" and t: "\<exists>t. total_of w f = Some t"
    from c t obtain c t where ct: "counter w f = Some c" "total_of w f = Some t"
      by blast
    let ?w1 = "if Suc c = t then w\<lparr>jobs := jobs w @ [f]\<rparr> else w"
    from decide_counter [OF ct] obtain md where
      d: "increment_and_decide (hgetall w f) = Inr (md, Suc c = t)"
      by blast
    have r1: "upload_ready req f ?w1" "counter ?w1 f = Some c" "total_of ?w1 f = Some t"
      using r ct by simp_all
    note p = concurrent_request_props [OF r1]
    have up: "redis_up w"
      using r by (auto simp add: upload_ready_def)
    have up2: "redis_up (concurrent_request req ?w1)"
      using p(1) by (auto simp add: upload_ready_def)
    have v: "version (concurrent_request req ?w1) f = Suc (version w f)"
      using p(4) by simp
    have o': "others i = concurrent_request req"
      by (simp add: o storm_def)
    from "1"(2) have "um others f (Suc i) (concurrent_request req ?w1) = Some y"
      by (simp add: up d o' Let_def up2 v)
    from "1"(1) [OF this] o p(1,2,3) show False
      by blast
  qed
qed

lemma storm_never_returns:
  assumes "upload_ready req f w" "counter w f = Some c" "total_of w f = Some t"
  shows "update_metadata (storm req) f i w = None"
proof (cases "update_metadata (storm req) f i w")
  case None
  then show ?thesis .
next
  case (Some y)
  from storm_never_returns_aux [OF this, of req] assms show ?thesis
    by blast
qed

lemma burst_returns:
  assumes "upload_ready req f w" "counter w f = Some c" "total_of w f = Some t" "i \<le> n"
  shows "\<exists>w'. update_metadata (burst n req) f i w = Some (Committed, Suc n, w')
           \<and> counter w' f = Some (Suc (c + (n - i)))"
  using assms
proof (induction "n - i" arbitrary: i w c)
  case 0
  then have "i = n"
    by simp
  have up: "redis_up w"
    using "0.prems"(1) by (auto simp add: upload_ready_def)
  have "update_metadata (burst n req) f i w = Some (Committed, Suc i, committed_world f w)"
    by (rule update_metadata_commit [OF up "0.prems"(2,3)]) (simp add: burst_def \<open>i = n\<close>)
  with committed_world_props(1) [OF "0.prems"(2,3)] \<open>i = n\<close> show ?case
    by simp
next
  case (Suc k)
  then have lt: "i < n" and k: "k = n - Suc i" and le: "Suc i \<le> n"
    by simp_all
  let ?w1 = "if Suc c = t then w\<lparr>jobs := jobs w @ [f]\<rparr> else w"
  have r1: "upload_ready req f ?w1" "counter ?w1 f = Some c" "total_of ?w1 f = Some t"
    using Suc.prems by simp_all
  note p = concurrent_request_props [OF r1]
  have step: "update_metadata (burst n req) f i w
      = update_metadata (burst n req) f (Suc i) (concurrent_request req ?w1)"
    by (rule update_metadata_conflict [OF Suc.prems(1,2,3)]) (simp add: burst_def lt)
  from Suc.hyps(1) [OF k p(1) p(2) p(3) le] obtain w' where
    "update_metadata (burst n req) f (Suc i) (concurrent_request req ?w1) = Some (Committed, Suc n, w')"
    "counter w' f = Some (Suc (Suc c + (n - Suc i)))"
    by blast
  with step lt show ?case
    by (auto simp add: Suc_diff_Suc)
qed

section \<open>A session of one chunk, and the request that uploads it\<close>

definition one_chunk_session :: world where
  "one_chunk_session = snd (init_upload ''u1'' 1 fresh_world)"

definition chunk_zero :: chunk_request where
  "chunk_zero = \<lparr>form_file_id = Some ''u1'', form_chunk_id = Some ''0'',
                  form_file = Some (''chunk_0.csv'', ''a,b'')\<rparr>"

lemma one_chunk_session_eq:
  "one_chunk_session = hset ''u1'' [''file_id'' \<mapsto> ''u1'', ''total_chunks'' \<mapsto> ''1'',
      ''chunks_uploaded'' \<mapsto> ''0'', ''status'' \<mapsto> ''Not Started''] fresh_world"
  by (simp add: one_chunk_session_def init_upload_def Let_def fresh_world_def hgetall_hset_same
      str_nat_small digit_char_def)

lemma one_chunk_session_ready:
  "upload_ready chunk_zero ''u1'' one_chunk_session"
  "counter one_chunk_session ''u1'' = Some 0"
  "total_of one_chunk_session ''u1'' = Some 1"
  "jobs one_chunk_session = []"
  unfolding one_chunk_session_eq
  by (simp_all add: upload_ready_def chunk_zero_def plain_name_def counter_def total_of_def
      hgetall_hset_same isdigit_def is_digit_char_def digits_value_def digit_value_def
      fresh_world_def)

lemma upload_ready_up: "upload_ready req f w \<Longrightarrow> redis_up w"
  by (auto simp add: upload_ready_def)


section \<open>Exactly-once trigger\<close>

text \<open>
  Claim C1, evaluated on the code. The session \<open>u1\<close> has \<open>total_chunks = 1\<close>. Two requests
  upload its chunk \<open>0\<close> at the same time: the first reads \<open>chunks_uploaded = 0\<close>, computes
  \<open>1 = total_chunks\<close> and calls \<open>process_chunks.delay\<close>; before its \<open>EXEC\<close> the second request
  runs to completion (it enqueues too, and commits). The first request's \<open>EXEC\<close> is
  rejected, it retries, reads \<open>1\<close>, writes \<open>2\<close> and answers 201. The queue then holds two
  jobs for the session, one of them from the attempt whose commit was rejected.
\<close>

theorem race_enqueues_twice:
  "map_option (\<lambda>(r, w'). (snd r, jobs w', counter w' ''u1''))
     (create_chunk (burst 1 chunk_zero) chunk_zero one_chunk_session)
   = Some (201, [''u1'', ''u1''], Some 2)"
proof -
  let ?w = "chunk_written ''u1'' ''0'' ''a,b'' one_chunk_session"
  let ?w1 = "?w\<lparr>jobs := jobs ?w @ [''u1'']\<rparr>"
  let ?w2 = "concurrent_request chunk_zero ?w1"
  have r: "upload_ready chunk_zero ''u1'' ?w" "counter ?w ''u1'' = Some 0" "total_of ?w ''u1'' = Some 1"
    using one_chunk_session_ready by (simp_all add: upload_ready_def)
  have r1: "upload_ready chunk_zero ''u1'' ?w1" "counter ?w1 ''u1'' = Some 0" "total_of ?w1 ''u1'' = Some 1"
    using r by simp_all
  note p = concurrent_request_props [OF r1]
  have a0: "update_metadata (burst 1 chunk_zero) ''u1'' 0 ?w
      = update_metadata (burst 1 chunk_zero) ''u1'' (Suc 0) ?w2"
    using update_metadata_conflict [OF r, of "burst 1 chunk_zero" 0]
    by (simp add: burst_def)
  have up: "redis_up ?w2"
    using p(1) by (auto simp add: upload_ready_def)
  have a1: "update_metadata (burst 1 chunk_zero) ''u1'' (Suc 0) ?w2
      = Some (Committed, Suc (Suc 0), committed_world ''u1'' ?w2)"
    by (rule update_metadata_commit [OF up p(2) p(3)]) (simp add: burst_def)
  note q = committed_world_props [OF p(2) p(3)]
  have j: "jobs (committed_world ''u1'' ?w2) = [''u1'', ''u1'']"
    using q(3) p(5) one_chunk_session_ready(4) by simp
  have c: "counter (committed_world ''u1'' ?w2) ''u1'' = Some 2"
    using q(1) by (simp add: numeral_2_eq_2)
  have m: "\<exists>w1. makedirs ''u1'' one_chunk_session = Some w1
      \<and> save_chunk ''u1'' ''0'' ''a,b'' w1 = Some ?w"
    using one_chunk_session_ready(1)
    by (intro makedirs_save) (simp_all add: upload_ready_def chunk_zero_def)
  have "create_chunk (burst 1 chunk_zero) chunk_zero one_chunk_session
      = Some ((ChunkCreated ''u1'' ''0'', 201), committed_world ''u1'' ?w2)"
    using m one_chunk_session_ready(1) counter_exists [OF one_chunk_session_ready(2)] a0 a1
    by (auto simp add: create_chunk_def chunk_zero_def upload_ready_def)
  with j c show ?thesis
    by simp
qed



section \<open>The retry loop\<close>

text \<open>
  Claim C2, as the code has it. The loop retries from a fresh read after every rejected
  commit, and nothing bounds the attempts: when another upload commits during each of the
  first \<open>n\<close> attempts, the loop commits on attempt \<open>n + 1\<close>, for every \<open>n\<close>, having read the
  counter afresh each time (the committed value is \<open>c + n + 1\<close>); it reports no conflict
  error. When another upload commits during every attempt, the loop does not return.
\<close>

theorem retry_loop_has_no_bound:
  assumes "upload_ready req f w" "counter w f = Some c" "total_of w f = Some t"
  shows "(\<exists>w'. update_metadata (burst n req) f 0 w = Some (Committed, Suc n, w')
            \<and> counter w' f = Some (Suc (c + n)))
         \<and> update_metadata (storm req) f 0 w = None"
proof
  from burst_returns [OF assms, of 0 n]
  show "\<exists>w'. update_metadata (burst n req) f 0 w = Some (Committed, Suc n, w')
            \<and> counter w' f = Some (Suc (c + n))"
    by simp
  from storm_never_returns [OF assms]
  show "update_metadata (storm req) f 0 w = None" .
qed

theorem retry_loop_has_no_bound_witness:
  "(\<exists>w'. update_metadata (burst 7 chunk_zero) ''u1'' 0 one_chunk_session = Some (Committed, 8, w')
       \<and> counter w' ''u1'' = Some 8)
   \<and> update_metadata (storm chunk_zero) ''u1'' 0 one_chunk_session = None"
  using retry_loop_has_no_bound [OF one_chunk_session_ready(1,2,3), of 7]
  by simp

text \<open>
  Against claim C2 as stated: under unending contention the handler neither stops after a
  bounded number of attempts nor reports a conflict; it does not return.
\<close>

theorem upload_never_returns_under_contention:
  "create_chunk (storm chunk_zero) chunk_zero one_chunk_session = None"
proof -
  let ?w = "chunk_written ''u1'' ''0'' ''a,b'' one_chunk_session"
  have r: "upload_ready chunk_zero ''u1'' ?w" "counter ?w ''u1'' = Some 0" "total_of ?w ''u1'' = Some 1"
    using one_chunk_session_ready by (simp_all add: upload_ready_def)
  have m: "\<exists>w1. makedirs ''u1'' one_chunk_session = Some w1
      \<and> save_chunk ''u1'' ''0'' ''a,b'' w1 = Some ?w"
    using one_chunk_session_ready(1)
    by (intro makedirs_save) (simp_all add: upload_ready_def chunk_zero_def)
  show ?thesis
    using m one_chunk_session_ready(1) counter_exists [OF one_chunk_session_ready(2)]
      storm_never_returns [OF r, of 0]
    by (auto simp add: create_chunk_def chunk_zero_def upload_ready_def)
qed

section \<open>Operations on a session, served one after another\<close>

text \<open>
  An upload request served without interference, or a status update by the worker.
  \<open>counter_after\<close> reads \<open>chunks_uploaded\<close> of a session after a sequence of operations.
\<close>

datatype operation = Upload chunk_request | SetStatus string string

fun apply_operation :: "operation \<Rightarrow> world \<Rightarrow> world option" where
  "apply_operation (Upload req) w = map_option snd (create_chunk quiet req w)"
| "apply_operation (SetStatus file_id status) w = Some (update_redis_metadata file_id status w)"

fun run_operations :: "operation list \<Rightarrow> world \<Rightarrow> world option" where
  "run_operations [] w = Some w"
| "run_operations (x # xs) w =
     (case apply_operation x w of None \<Rightarrow> None | Some w' \<Rightarrow> run_operations xs w')"

definition counter_after :: "operation list \<Rightarrow> world \<Rightarrow> string \<Rightarrow> nat option" where
  "counter_after ops w f = (case run_operations ops w of None \<Rightarrow> None | Some w' \<Rightarrow> counter w' f)"

lemma committed_world_fields [simp]:
  "upload_dir (committed_world g w) = upload_dir w"
  "merge_dir (committed_world g w) = merge_dir w"
  "redis_up (committed_world g w) = redis_up w"
  "fs_fault (committed_world g w) = fs_fault w"
  by (simp_all add: committed_world_def split: sum.splits prod.splits)

lemma committed_world_other:
  "f \<noteq> g \<Longrightarrow> hgetall (committed_world g w) f = hgetall w f"
  by (simp add: committed_world_def hgetall_hset_other split: sum.splits prod.splits)

lemma makedirs_then_save:
  "makedirs d w = Some w1 \<Longrightarrow> save_chunk d n p w1 = Some w2
     \<Longrightarrow> \<exists>t. locate w1 d n = Some t \<and> w2 = write_target t p w1"
  by (auto simp add: save_chunk_def split: option.splits if_splits)

lemma makedirs_hashes: "makedirs d w = Some w1 \<Longrightarrow> hgetall w1 = hgetall w"
  by (auto simp add: makedirs_def split: option.splits if_splits)

lemma makedirs_fields:
  assumes "makedirs d w = Some w1"
  shows "redis_up w1 = redis_up w" "jobs w1 = jobs w" "hashes w1 = hashes w"
    "version w1 = version w" "fs_fault w1 = fs_fault w" "merge_dir w1 = merge_dir w"
    "upload_files w1 = upload_files w" "outside_files w1 = outside_files w"
    "outside_step w1 = outside_step w" "upload_parent w1 = upload_parent w"
    "merge_parent w1 = merge_parent w" "movies w1 = movies w"
    "upload_dir w1 d \<noteq> None"
    "\<And>e. e \<noteq> d \<Longrightarrow> upload_dir w1 e = upload_dir w e"
    "listdir w1 = listdir w"
  using assms
  by (auto simp add: makedirs_def listdir_def fun_eq_iff split: option.splits if_splits)

lemma write_target_fields [simp]:
  "redis_up (write_target t p w) = redis_up w"
  "jobs (write_target t p w) = jobs w"
  "hashes (write_target t p w) = hashes w"
  "version (write_target t p w) = version w"
  "movies (write_target t p w) = movies w"
  "outside_step (write_target t p w) = outside_step w"
  "upload_parent (write_target t p w) = upload_parent w"
  "merge_parent (write_target t p w) = merge_parent w"
  "hgetall (write_target t p w) = hgetall w"
  "counter (write_target t p w) = counter w"
  "total_of (write_target t p w) = total_of w"
  by (cases t; simp add: hgetall_def counter_def total_of_def fun_eq_iff)+

lemma create_chunk_quiet_cases:
  "\<exists>r w'. create_chunk quiet req w = Some (r, w')
     \<and> ((snd r \<noteq> 201 \<and> hgetall w' = hgetall w)
        \<or> (\<exists>g n fn p w1 t. form_file_id req = Some g \<and> form_chunk_id req = Some n
              \<and> form_file req = Some (fn, p) \<and> redis_exists w g
              \<and> r = (ChunkCreated g n, 201)
              \<and> makedirs g w = Some w1 \<and> locate w1 g n = Some t
              \<and> w' = committed_world g (write_target t p w1)
              \<and> (\<exists>x. increment_and_decide (hgetall w g) = Inr x)))"
proof (cases "form_file_id req")
  case None
  then show ?thesis
    by (simp add: create_chunk_def)
next
  case g: (Some g)
  show ?thesis
  proof (cases "form_chunk_id req")
    case None
    then show ?thesis
      by (simp add: create_chunk_def g)
  next
    case n: (Some n)
    show ?thesis
    proof (cases "form_file req")
      case None
      then show ?thesis
        by (simp add: create_chunk_def g n)
    next
      case (Some fp)
      then obtain fn p where fp: "form_file req = Some (fn, p)"
        by (cases fp) simp
      show ?thesis
      proof (cases "g = [] \<or> n = [] \<or> fn = [] \<or> \<not> redis_up w \<or> \<not> redis_exists w g")
        case True
        then show ?thesis
          by (auto simp add: create_chunk_def g n fp)
      next
        case ok: False
        show ?thesis
        proof (cases "makedirs g w")
          case None
          with ok show ?thesis
            by (simp add: create_chunk_def g n fp)
        next
          case w1: (Some w1)
          note h1 = makedirs_hashes [OF w1]
          show ?thesis
          proof (cases "save_chunk g n p w1")
            case None
            with ok w1 h1 show ?thesis
              by (simp add: create_chunk_def g n fp)
          next
            case (Some w2)
            from makedirs_then_save [OF w1 Some] obtain t where
              t: "locate w1 g n = Some t" and w2: "w2 = write_target t p w1"
              by blast
            have up: "redis_up w2"
              using ok makedirs_fields(1) [OF w1] by (simp add: w2)
            have h2: "hgetall w2 = hgetall w"
              using h1 by (simp add: w2)
            show ?thesis
            proof (cases "increment_and_decide (hgetall w g)")
              case (Inl e)
              with ok w1 Some up h2 show ?thesis
                by (simp add: create_chunk_def g n fp update_metadata_quiet_unfold)
            next
              case (Inr x)
              have "create_chunk quiet req w
                      = Some ((ChunkCreated g n, 201), committed_world g w2)"
                using Inr ok w1 Some up h2
                by (simp add: create_chunk_def g n fp update_metadata_quiet_unfold)
              with Inr ok w1 t w2 g n fp show ?thesis
                by auto
            qed
          qed
        qed
      qed
    qed
  qed
qed


lemma counter_cong:
  "hgetall w' f = hgetall w f \<Longrightarrow> counter w' f = counter w f"
  "hgetall w' f = hgetall w f \<Longrightarrow> total_of w' f = total_of w f"
  by (simp_all add: counter_def total_of_def)

lemma update_redis_metadata_field:
  "k \<noteq> ''status'' \<Longrightarrow> hgetall (update_redis_metadata g st w) f k = hgetall w f k"
  by (cases "f = g")
     (auto simp add: update_redis_metadata_def Let_def hgetall_hset_same hgetall_hset_other
       map_add_def split: option.splits)

lemma update_redis_metadata_counter:
  "counter (update_redis_metadata g st w) f = counter w f"
  "total_of (update_redis_metadata g st w) f = total_of w f"
  by (simp_all add: counter_def total_of_def update_redis_metadata_field)

lemma upload_counter:
  assumes "counter w f = Some c" "total_of w f = Some t"
    and "create_chunk quiet req w = Some (r, w')"
  shows "counter w' f = Some (if snd r = 201 \<and> form_file_id req = Some f then Suc c else c)
         \<and> total_of w' f = Some t"
proof -
  from create_chunk_quiet_cases [of req w] assms(3)
  consider (same) "snd r \<noteq> 201" "hgetall w' = hgetall w"
    | (commit) g n w2 where "form_file_id req = Some g" "r = (ChunkCreated g n, 201)"
        "w' = committed_world g w2" "hgetall w2 = hgetall w"
  proof -
    from create_chunk_quiet_cases [of req w] assms(3)
    consider "snd r \<noteq> 201 \<and> hgetall w' = hgetall w"
      | "\<exists>g n p w1 t. form_file_id req = Some g \<and> r = (ChunkCreated g n, 201)
           \<and> makedirs g w = Some w1 \<and> w' = committed_world g (write_target t p w1)"
      by auto
    then show ?thesis
    proof cases
      case 1
      then show ?thesis
        by (auto intro: same)
    next
      case 2
      then obtain g n p w1 t where c: "form_file_id req = Some g" "r = (ChunkCreated g n, 201)"
        "makedirs g w = Some w1" "w' = committed_world g (write_target t p w1)"
        by blast
      have "hgetall (write_target t p w1) = hgetall w"
        using makedirs_hashes [OF c(3)] by simp
      with c show ?thesis
        by (auto intro: commit)
    qed
  qed
  then show ?thesis
  proof cases
    case same
    with assms(1,2) counter_cong [of w' f w] show ?thesis
      by simp
  next
    case commit
    show ?thesis
    proof (cases "g = f")
      case True
      have cv: "counter w2 f = Some c" "total_of w2 f = Some t"
        using assms counter_cong [of w2 f w] commit(4) by simp_all
      from committed_world_props(1,2) [OF cv] commit True show ?thesis
        by simp
    next
      case False
      then have "hgetall w' f = hgetall w f"
        by (simp add: commit(3,4) committed_world_other)
      with assms(1,2) commit False counter_cong [of w' f w] show ?thesis
        by simp
    qed
  qed
qed

lemma apply_operation_counter:
  assumes "counter w f = Some c" "total_of w f = Some t"
  shows "\<exists>w' c'. apply_operation x w = Some w' \<and> counter w' f = Some c' \<and> c \<le> c'
           \<and> total_of w' f = Some t"
proof (cases x)
  case (Upload req)
  from create_chunk_quiet_cases [of req w] obtain r w' where
    run: "create_chunk quiet req w = Some (r, w')"
    by blast
  from upload_counter [OF assms run] run Upload show ?thesis
    by auto
next
  case (SetStatus g st)
  with assms show ?thesis
    by (simp add: update_redis_metadata_counter)
qed

lemma run_operations_counter:
  assumes "counter w f = Some c" "total_of w f = Some t"
  shows "\<exists>w' c'. run_operations ops w = Some w' \<and> counter w' f = Some c' \<and> c \<le> c'
           \<and> total_of w' f = Some t"
  using assms
proof (induction ops arbitrary: w c)
  case Nil
  then show ?case
    by simp
next
  case (Cons x xs)
  from apply_operation_counter [OF Cons.prems, of x] obtain w1 c1 where
    s: "apply_operation x w = Some w1" "counter w1 f = Some c1" "c \<le> c1" "total_of w1 f = Some t"
    by blast
  from Cons.IH [OF s(2) s(4)] obtain w' c' where
    "run_operations xs w1 = Some w'" "counter w' f = Some c'" "c1 \<le> c'" "total_of w' f = Some t"
    by blast
  with s show ?case
    by auto
qed

lemma run_operations_append:
  "run_operations (xs @ ys) w
     = (case run_operations xs w of None \<Rightarrow> None | Some w' \<Rightarrow> run_operations ys w')"
  by (induction xs arbitrary: w) (auto split: option.splits)


section \<open>The uploaded-chunks counter\<close>

text \<open>
  Claim C3, as the code has it. On a session whose counter and total are decimal strings,
  across any sequence of uploads and status updates served one after another (re-uploads
  of a chunk index included) \<open>chunks_uploaded\<close> stays a natural number and never decreases:
  after any prefix of the sequence it is at least its initial value and at most its value
  after the whole sequence. An upload of the session answered 201 raises it by exactly one
  and any other answer leaves it; no comparison with \<open>total_chunks\<close> limits it.
\<close>

theorem chunks_uploaded_never_decreases:
  assumes "counter w f = Some c" "total_of w f = Some t"
  shows "(\<exists>c1 c2. counter_after ops1 w f = Some c1 \<and> counter_after (ops1 @ ops2) w f = Some c2
            \<and> c \<le> c1 \<and> c1 \<le> c2)
         \<and> (\<exists>r w'. create_chunk quiet req w = Some (r, w')
               \<and> counter w' f
                  = Some (if snd r = 201 \<and> form_file_id req = Some f then Suc c else c))"
proof
  from run_operations_counter [OF assms, of ops1] obtain w1 c1 where
    a: "run_operations ops1 w = Some w1" "counter w1 f = Some c1" "c \<le> c1" "total_of w1 f = Some t"
    by blast
  from run_operations_counter [OF a(2) a(4), of ops2] obtain w2 c2 where
    b: "run_operations ops2 w1 = Some w2" "counter w2 f = Some c2" "c1 \<le> c2"
    by blast
  from a b show "\<exists>c1 c2. counter_after ops1 w f = Some c1
      \<and> counter_after (ops1 @ ops2) w f = Some c2 \<and> c \<le> c1 \<and> c1 \<le> c2"
    by (simp add: counter_after_def run_operations_append)
  from create_chunk_quiet_cases [of req w] obtain r w' where
    run: "create_chunk quiet req w = Some (r, w')"
    by blast
  with upload_counter [OF assms run] show "\<exists>r w'. create_chunk quiet req w = Some (r, w')
      \<and> counter w' f = Some (if snd r = 201 \<and> form_file_id req = Some f then Suc c else c)"
    by blast
qed


lemma apply_upload: "apply_operation (Upload req) w = Some (concurrent_request req w)"
  using create_chunk_quiet_cases [of req w]
  by (auto simp add: concurrent_request_def)

theorem chunks_uploaded_never_decreases_witness:
  "(\<exists>c1 c2. counter_after [Upload chunk_zero] one_chunk_session ''u1'' = Some c1
       \<and> counter_after ([Upload chunk_zero] @ [SetStatus ''u1'' ''Completed'', Upload chunk_zero])
            one_chunk_session ''u1'' = Some c2
       \<and> 0 \<le> c1 \<and> c1 \<le> c2)
   \<and> (\<exists>r w'. create_chunk quiet chunk_zero one_chunk_session = Some (r, w')
         \<and> counter w' ''u1''
            = Some (if snd r = 201 \<and> form_file_id chunk_zero = Some ''u1'' then Suc 0 else 0))"
  by (rule chunks_uploaded_never_decreases [OF one_chunk_session_ready(2,3)])

text \<open>
  Against claim C3 as stated: uploading the single chunk of a one-chunk session twice
  leaves \<open>chunks_uploaded = 2\<close> with \<open>total_chunks = 1\<close>.
\<close>

theorem chunks_uploaded_exceeds_total:
  "counter_after [Upload chunk_zero, Upload chunk_zero] one_chunk_session ''u1'' = Some 2
   \<and> total_of one_chunk_session ''u1'' = Some 1"
proof -
  note p = concurrent_request_props [OF one_chunk_session_ready(1,2,3)]
  note q = concurrent_request_props [OF p(1,2,3)]
  have "counter (concurrent_request chunk_zero (concurrent_request chunk_zero one_chunk_session)) ''u1''
      = Some 2"
    using q(2) by (simp add: numeral_2_eq_2)
  then show ?thesis
    by (simp add: counter_after_def apply_upload one_chunk_session_ready(3)
        del: apply_operation.simps)
qed


section \<open>Chunk storage\<close>

text \<open>
  \<open>same_dirs\<close>: two worlds have the same directories. Path resolution depends on nothing
  else, and writing a regular file changes no directory.
\<close>

definition same_dirs :: "world \<Rightarrow> world \<Rightarrow> bool" where
  "same_dirs w' w =
     ((\<forall>d. (upload_dir w' d = None) = (upload_dir w d = None))
      \<and> outside_step w' = outside_step w
      \<and> upload_parent w' = upload_parent w \<and> merge_parent w' = merge_parent w)"

text \<open>
  Two sessions, the second with a chunk on disk, and a request for the first session whose
  chunk id leads into the directory of the second.
\<close>

definition two_sessions :: world where
  "two_sessions =
     (snd (init_upload ''u2'' 1 one_chunk_session))\<lparr>upload_dir := [''u2'' \<mapsto> [(''0'', ''x,y'')]]\<rparr>"

definition chunk_outside :: chunk_request where
  "chunk_outside = \<lparr>form_file_id = Some ''u1'', form_chunk_id = Some ''../u2/0'',
                     form_file = Some (''chunk_0.csv'', ''z'')\<rparr>"

lemma length_alist_update:
  "length (AList.update k v al) = (if k \<in> fst ` set al then length al else Suc (length al))"
  by (induction al) auto

lemma listdir_chunk_written:
  "listdir (chunk_written d n p w) d = AList.update n p (listdir w d)"
  "d' \<noteq> d \<Longrightarrow> upload_dir (chunk_written d n p w) d' = upload_dir w d'"
  "merge_dir (chunk_written d n p w) = merge_dir w"
  by (simp_all add: listdir_def chunk_written_def)

lemma listdir_committed [simp]: "listdir (committed_world g w) = listdir w"
  by (simp add: listdir_def fun_eq_iff)

lemma counter_upload_dir [simp]:
  "counter (w\<lparr>upload_dir := u\<rparr>) = counter w" "total_of (w\<lparr>upload_dir := u\<rparr>) = total_of w"
  by (simp_all add: counter_def total_of_def fun_eq_iff)

lemma enter_same_dirs:
  assumes "same_dirs w' w"
  shows "enter w' pl c = enter w pl c"
proof -
  from assms have d: "\<And>d. (upload_dir w' d = None) = (upload_dir w d = None)"
    and o: "outside_step w' = outside_step w" "upload_parent w' = upload_parent w"
      "merge_parent w' = merge_parent w"
    by (simp_all add: same_dirs_def)
  show ?thesis
    unfolding enter_def d o ..
qed

lemma walk_same_dirs: "same_dirs w' w \<Longrightarrow> walk w' pl cs = walk w pl cs"
  by (induction cs arbitrary: pl) (simp_all add: enter_same_dirs split: option.splits)

lemma locate_same_dirs:
  assumes "same_dirs w' w"
  shows "locate w' f n = locate w f n"
proof -
  from assms have d: "\<And>d. (upload_dir w' d = None) = (upload_dir w d = None)"
    and o: "outside_step w' = outside_step w"
    by (simp_all add: same_dirs_def)
  show ?thesis
    unfolding locate_def Let_def walk_same_dirs [OF assms] d o ..
qed

lemma same_dirs_refl [simp]: "same_dirs w w"
  by (simp add: same_dirs_def)

lemma same_dirs_committed [simp]: "same_dirs (committed_world g w) w"
  by (simp add: same_dirs_def)

lemma same_dirs_trans: "same_dirs w'' w' \<Longrightarrow> same_dirs w' w \<Longrightarrow> same_dirs w'' w"
  by (simp add: same_dirs_def)

lemma locate_chunk_dir:
  "locate w f n = Some (ChunkFile d m) \<Longrightarrow> upload_dir w d \<noteq> None"
  by (auto simp add: locate_def Let_def split: if_splits option.splits place.splits)

lemma write_target_same_dirs:
  assumes "locate w f n = Some t"
  shows "same_dirs (write_target t p w) w"
proof (cases t)
  case (ChunkFile d m)
  with locate_chunk_dir [of w f n d m] assms show ?thesis
    by (auto simp add: same_dirs_def)
qed (simp_all add: same_dirs_def)

lemma stored_write_target:
  "stored (write_target t p w) t' = (if t' = t then Some p else stored w t')"
proof (cases t)
  case (ChunkFile d m)
  then show ?thesis
    by (cases t') (auto simp add: listdir_def update_conv')
next
  case (UploadFile m)
  then show ?thesis
    by (cases t') (auto simp add: listdir_def)
next
  case (MergeFile m)
  then show ?thesis
    by (cases t') (auto simp add: listdir_def)
next
  case (OutsideFile dir m)
  then show ?thesis
    by (cases t') (auto simp add: listdir_def)
qed

lemma stored_committed [simp]: "stored (committed_world g w) t = stored w t"
  by (cases t) simp_all

lemma stored_makedirs: "makedirs d w = Some w1 \<Longrightarrow> stored w1 t = stored w t"
  by (cases t) (simp_all add: makedirs_fields)

lemma makedirs_existing: "upload_dir w d \<noteq> None \<Longrightarrow> makedirs d w = Some w1 \<Longrightarrow> w1 = w"
  by (auto simp add: makedirs_def split: if_splits)

lemma write_target_keeps_dir: "upload_dir w d \<noteq> None \<Longrightarrow> upload_dir (write_target t p w) d \<noteq> None"
  by (cases t) auto

lemma create_chunk_201:
  assumes "create_chunk quiet req w = Some ((b, 201), w')"
  shows "\<exists>f n fn p w1 t. form_file_id req = Some f \<and> form_chunk_id req = Some n
           \<and> form_file req = Some (fn, p) \<and> redis_exists w f
           \<and> makedirs f w = Some w1 \<and> locate w1 f n = Some t
           \<and> w' = committed_world f (write_target t p w1)"
  using create_chunk_quiet_cases [of req w] assms by auto

lemma ready_upload_201:
  assumes "upload_ready req f w" "counter w f = Some c" "total_of w f = Some t"
  shows "\<exists>n. form_chunk_id req = Some n
           \<and> create_chunk quiet req w = Some ((ChunkCreated f n, 201), concurrent_request req w)"
proof -
  from assms(1) obtain n fn p where
    r: "form_file_id req = Some f" "form_chunk_id req = Some n" "form_file req = Some (fn, p)"
      "f \<noteq> []" "fn \<noteq> []" "plain_name n"
      "\<not> fs_fault w OpMakedirs [f]" "\<not> fs_fault w OpSave [f, n]" "redis_up w"
    by (auto simp add: upload_ready_def)
  from create_chunk_quiet_ok [OF r assms(2,3)] r(2) show ?thesis
    by (simp add: concurrent_request_def)
qed

text \<open>
  Claim C8. A request with all three fields whose session id is not in the store is
  answered 404 and changes nothing: no directory, no blob, no counter. A request answered
  201 belongs to a session of the store and writes one regular file, the one its chunk id
  leads to from the session's directory: that file then holds the request's payload, and
  every other file, in the session's directory, in another session's, in the merge
  directory or outside, holds what it held before, so at most one blob is new. When the
  chunk id is a plain file name, the file is the entry of that name in the session's
  directory. A second request answered 201 for the same session and chunk id writes the
  same file and leaves its own payload there, all other files again as they were. Session
  ids are taken to be plain file names, as those \<open>init_upload\<close> generates are.
\<close>

theorem create_chunk_storage:
  "(form_file_id req = Some f \<and> form_chunk_id req = Some n \<and> form_file req = Some (fn, p)
      \<and> f \<noteq> [] \<and> n \<noteq> [] \<and> fn \<noteq> [] \<and> redis_up w \<and> hashes w f = None
    \<longrightarrow> create_chunk others req w = Some ((ErrorBody ''Invalid file_id'', 404), w))
   \<and> (form_file_id req = Some f \<and> form_chunk_id req = Some n \<and> form_file req = Some (fn, p)
        \<and> plain_name f \<and> create_chunk quiet req w = Some ((b, 201), w')
      \<longrightarrow> hashes w f \<noteq> None
          \<and> (\<exists>t. stored w' t = Some p
                \<and> (\<forall>t'. t' \<noteq> t \<longrightarrow> stored w' t' = stored w t')
                \<and> (plain_name n \<longrightarrow> t = ChunkFile f n)
                \<and> (create_chunk quiet (req\<lparr>form_file := Some (fn2, p2)\<rparr>) w'
                       = Some ((b2, 201), w'')
                     \<longrightarrow> stored w'' t = Some p2
                         \<and> (\<forall>t'. t' \<noteq> t \<longrightarrow> stored w'' t' = stored w' t'))))"
proof (intro conjI impI)
  assume "form_file_id req = Some f \<and> form_chunk_id req = Some n \<and> form_file req = Some (fn, p)
      \<and> f \<noteq> [] \<and> n \<noteq> [] \<and> fn \<noteq> [] \<and> redis_up w \<and> hashes w f = None"
  then show "create_chunk others req w = Some ((ErrorBody ''Invalid file_id'', 404), w)"
    by (simp add: create_chunk_def redis_exists_def)
next
  assume a: "form_file_id req = Some f \<and> form_chunk_id req = Some n \<and> form_file req = Some (fn, p)
        \<and> plain_name f \<and> create_chunk quiet req w = Some ((b, 201), w')"
  with create_chunk_201 [of req w b w'] obtain w1 t where
    e: "redis_exists w f" and m: "makedirs f w = Some w1" and l: "locate w1 f n = Some t"
    and w': "w' = committed_world f (write_target t p w1)"
    by auto
  show "hashes w f \<noteq> None"
    using e by (simp add: redis_exists_def)
  have d1: "upload_dir w1 f \<noteq> None"
    by (rule makedirs_fields(13) [OF m])
  show "\<exists>t. stored w' t = Some p
          \<and> (\<forall>t'. t' \<noteq> t \<longrightarrow> stored w' t' = stored w t')
          \<and> (plain_name n \<longrightarrow> t = ChunkFile f n)
          \<and> (create_chunk quiet (req\<lparr>form_file := Some (fn2, p2)\<rparr>) w' = Some ((b2, 201), w'')
               \<longrightarrow> stored w'' t = Some p2
                   \<and> (\<forall>t'. t' \<noteq> t \<longrightarrow> stored w'' t' = stored w' t'))"
  proof (intro exI [of _ t] conjI impI allI)
    show "stored w' t = Some p"
      by (simp add: w' stored_write_target)
    show "stored w' t' = stored w t'" if "t' \<noteq> t" for t'
      using that by (simp add: w' stored_write_target stored_makedirs [OF m])
    show "t = ChunkFile f n" if "plain_name n"
      using locate_plain [OF that d1] l by simp
    assume r: "create_chunk quiet (req\<lparr>form_file := Some (fn2, p2)\<rparr>) w' = Some ((b2, 201), w'')"
    with create_chunk_201 [of "req\<lparr>form_file := Some (fn2, p2)\<rparr>" w' b2 w''] a obtain w1' t2 where
      m2: "makedirs f w' = Some w1'" and l2: "locate w1' f n = Some t2"
      and w'': "w'' = committed_world f (write_target t2 p2 w1')"
      by auto
    have d2: "upload_dir w' f \<noteq> None"
      using d1 by (simp add: w' write_target_keeps_dir)
    have e1: "w1' = w'"
      by (rule makedirs_existing [OF d2 m2])
    have "same_dirs w' w1"
      unfolding w'
      by (rule same_dirs_trans [OF same_dirs_committed write_target_same_dirs [OF l]])
    then have "locate w' f n = locate w1 f n"
      by (rule locate_same_dirs)
    with l l2 e1 have t2: "t2 = t"
      by simp
    show "stored w'' t = Some p2"
      by (simp add: w'' t2 stored_write_target)
    show "stored w'' t' = stored w' t'" if "t' \<noteq> t" for t'
      using that by (simp add: w'' t2 e1 stored_write_target)
  qed
qed

theorem create_chunk_storage_witness:
  "create_chunk quiet chunk_zero fresh_world = Some ((ErrorBody ''Invalid file_id'', 404), fresh_world)
   \<and> stored (concurrent_request chunk_zero one_chunk_session) (ChunkFile ''u1'' ''0'') = Some ''a,b''
   \<and> stored (concurrent_request chunk_zero one_chunk_session) (ChunkFile ''u1'' ''1'') = None
   \<and> stored (concurrent_request chunk_zero one_chunk_session) (MergeFile ''u1.csv'') = None
   \<and> stored (concurrent_request (chunk_zero\<lparr>form_file := Some (''again.csv'', ''c,d'')\<rparr>)
         (concurrent_request chunk_zero one_chunk_session)) (ChunkFile ''u1'' ''0'') = Some ''c,d''"
proof -
  let ?w1 = "concurrent_request chunk_zero one_chunk_session"
  let ?r2 = "chunk_zero\<lparr>form_file := Some (''again.csv'', ''c,d'')\<rparr>"
  let ?w2 = "concurrent_request ?r2 ?w1"
  have f: "form_file_id chunk_zero = Some ''u1''" "form_chunk_id chunk_zero = Some ''0''"
    "form_file chunk_zero = Some (''chunk_0.csv'', ''a,b'')"
    by (simp_all add: chunk_zero_def)
  have pl: "plain_name ''u1''" "plain_name ''0''"
    by (simp_all add: plain_name_def)
  have a: "create_chunk quiet chunk_zero fresh_world
      = Some ((ErrorBody ''Invalid file_id'', 404), fresh_world)"
    using create_chunk_storage [of chunk_zero "''u1''" "''0''" "''chunk_0.csv''" "''a,b''"
        fresh_world quiet]
    by (simp add: f) (simp add: fresh_world_def)
  from ready_upload_201 [OF one_chunk_session_ready(1,2,3)] f
  have r1: "create_chunk quiet chunk_zero one_chunk_session = Some ((ChunkCreated ''u1'' ''0'', 201), ?w1)"
    by simp
  note q = concurrent_request_props [OF one_chunk_session_ready(1,2,3)]
  have rdy: "upload_ready ?r2 ''u1'' ?w1"
    using q(1) by (simp add: upload_ready_def chunk_zero_def)
  from ready_upload_201 [OF rdy q(2,3)]
  have r2: "create_chunk quiet ?r2 ?w1 = Some ((ChunkCreated ''u1'' ''0'', 201), ?w2)"
    by (simp add: chunk_zero_def)
  from create_chunk_storage [of chunk_zero "''u1''" "''0''" "''chunk_0.csv''" "''a,b''"
        one_chunk_session quiet "ChunkCreated ''u1'' ''0''" ?w1 "''again.csv''" "''c,d''"
        "ChunkCreated ''u1'' ''0''" ?w2] f r1 r2 pl
  have s: "stored ?w1 (ChunkFile ''u1'' ''0'') = Some ''a,b''"
    "stored ?w2 (ChunkFile ''u1'' ''0'') = Some ''c,d''"
    and o: "\<forall>t'. t' \<noteq> ChunkFile ''u1'' ''0'' \<longrightarrow> stored ?w1 t' = stored one_chunk_session t'"
    by auto
  have n: "stored one_chunk_session (ChunkFile ''u1'' ''1'') = None"
    "stored one_chunk_session (MergeFile ''u1.csv'') = None"
    by (simp_all add: one_chunk_session_eq listdir_def fresh_world_def)
  have "ChunkFile ''u1'' ''1'' \<noteq> ChunkFile ''u1'' ''0''" "MergeFile ''u1.csv'' \<noteq> ChunkFile ''u1'' ''0''"
    by simp_all
  with o have e: "stored ?w1 (ChunkFile ''u1'' ''1'') = stored one_chunk_session (ChunkFile ''u1'' ''1'')"
    "stored ?w1 (MergeFile ''u1.csv'') = stored one_chunk_session (MergeFile ''u1.csv'')"
    by (auto simp del: stored.simps)
  show ?thesis
    unfolding e n using a s by (simp del: stored.simps)
qed

text \<open>
  The file a chunk id leads to need not lie in the session's directory: the request
  \<open>chunk_outside\<close> for session \<open>u1\<close> is answered 201 and replaces the chunk \<open>0\<close> of
  session \<open>u2\<close>.
\<close>

lemma chunk_id_leaves_session_directory:
  "\<exists>w'. create_chunk quiet chunk_outside two_sessions
           = Some ((ChunkCreated ''u1'' ''../u2/0'', 201), w')
         \<and> stored two_sessions (ChunkFile ''u2'' ''0'') = Some ''x,y''
         \<and> stored w' (ChunkFile ''u2'' ''0'') = Some ''z''
         \<and> stored w' (ChunkFile ''u1'' ''../u2/0'') = None"
proof -
  let ?w1 = "two_sessions\<lparr>upload_dir := [''u2'' \<mapsto> [(''0'', ''x,y'')], ''u1'' \<mapsto> []]\<rparr>"
  let ?w2 = "write_target (ChunkFile ''u2'' ''0'') ''z'' ?w1"
  have h: "hgetall two_sessions ''u1'' = hgetall one_chunk_session ''u1''"
    "redis_up two_sessions" "\<not> fs_fault two_sessions OpMakedirs [''u1'']"
    "\<not> fs_fault two_sessions OpSave [''u1'', ''../u2/0'']"
    "upload_dir two_sessions = [''u2'' \<mapsto> [(''0'', ''x,y'')]]"
    by (simp_all add: two_sessions_def init_upload_def Let_def one_chunk_session_eq
        hgetall_hset_other hgetall_hset_same fresh_world_def)
  have c: "counter two_sessions ''u1'' = Some 0" "total_of two_sessions ''u1'' = Some 1"
    using one_chunk_session_ready(2,3) h(1) by (simp_all add: counter_def total_of_def)
  have m: "makedirs ''u1'' two_sessions = Some ?w1"
    using h by (simp add: makedirs_def fun_upd_twist)
  have l: "locate ?w1 ''u1'' ''../u2/0'' = Some (ChunkFile ''u2'' ''0'')"
    by (simp add: locate_def Let_def enter_def)
  have s: "save_chunk ''u1'' ''../u2/0'' ''z'' ?w1 = Some ?w2"
    using h(4) l by (simp add: save_chunk_def)
  have c2: "counter ?w2 ''u1'' = Some 0" "total_of ?w2 ''u1'' = Some 1" "redis_up ?w2"
    using c h(2) by simp_all
  have u: "update_metadata quiet ''u1'' 0 ?w2 = Some (Committed, Suc 0, committed_world ''u1'' ?w2)"
    by (rule update_metadata_quiet [where c = 0 and t = 1]) (simp_all add: c h(2))
  have "create_chunk quiet chunk_outside two_sessions
      = Some ((ChunkCreated ''u1'' ''../u2/0'', 201), committed_world ''u1'' ?w2)"
    using h(2) counter_exists [OF c(1)] m s u by (simp add: create_chunk_def chunk_outside_def)
  moreover have "stored two_sessions (ChunkFile ''u2'' ''0'') = Some ''x,y''"
    by (simp add: listdir_def h(5))
  moreover have "stored (committed_world ''u1'' ?w2) (ChunkFile ''u2'' ''0'') = Some ''z''"
    unfolding stored_committed stored_write_target by simp
  moreover have "stored (committed_world ''u1'' ?w2) (ChunkFile ''u1'' ''../u2/0'') = None"
    unfolding stored_committed stored_write_target by (simp add: listdir_def)
  ultimately show ?thesis
    by blast
qed


section \<open>Merge Worker: \<open>merge_chunks\<close>\<close>

text \<open>
  \<open>py_int\<close> is Python's \<open>int(s)\<close> on ASCII text: surrounding white space is stripped, one
  sign is allowed, the rest must be decimal digits; \<open>None\<close> is the \<open>ValueError\<close>.
  \<open>chunk_index\<close> is the sort key of line 97, \<open>int(os.path.basename(x).split('_')[-1])\<close>, on
  the name of a directory entry.
\<close>

definition is_space :: "char \<Rightarrow> bool" where
  "is_space c = ((9 \<le> (of_char c :: nat) \<and> (of_char c :: nat) \<le> 13)
                 \<or> (28 \<le> (of_char c :: nat) \<and> (of_char c :: nat) \<le> 32))"

definition strip :: "string \<Rightarrow> string" where
  "strip s = rev (dropWhile is_space (rev (dropWhile is_space s)))"

definition py_int :: "string \<Rightarrow> int option" where
  "py_int s =
     (case strip s of
        [] \<Rightarrow> None
      | c # ds \<Rightarrow>
          if c = CHR ''-'' then (if isdigit ds then Some (- int (digits_value ds)) else None)
          else if c = CHR ''+'' then (if isdigit ds then Some (int (digits_value ds)) else None)
          else if isdigit (c # ds) then Some (int (digits_value (c # ds)))
          else None)"

definition last_segment :: "string \<Rightarrow> string" where
  "last_segment s = rev (takeWhile (\<lambda>c. c \<noteq> CHR ''_'') (rev s))"

definition chunk_index :: "string \<Rightarrow> int option" where
  "chunk_index name = py_int (last_segment name)"

text \<open>
  \<open>sorted(chunk_files, key=...)\<close>: the key of every entry is computed, so one name that is
  no integer fails the whole sort; the sort is stable.
\<close>

definition sort_by_index :: "string list \<Rightarrow> string list option" where
  "sort_by_index names =
     (if list_all (\<lambda>n. chunk_index n \<noteq> None) names
      then Some (sort_key (\<lambda>n. the (chunk_index n)) names)
      else None)"

definition merge_output :: "string \<Rightarrow> string" where
  "merge_output file_id = file_id @ ''.csv''"

text \<open>
  Lines 101 to 104: each chunk is read whole and appended to the open output file. The
  result is \<open>False\<close> when a read or a write raised; the bytes written before stay in the
  file, which the \<open>with\<close> statement closes.
\<close>

fun concat_chunks :: "string \<Rightarrow> string \<Rightarrow> string list \<Rightarrow> world \<Rightarrow> bool \<times> world" where
  "concat_chunks d out [] w = (True, w)"
| "concat_chunks d out (n # ns) w =
     (if fs_fault w OpRead [d, n] then (False, w)
      else case map_of (listdir w d) n of
             None \<Rightarrow> (False, w)
           | Some payload \<Rightarrow>
               if fs_fault w OpWrite [out] then (False, w)
               else concat_chunks d out ns
                      (w\<lparr>merge_dir := (merge_dir w)
                           (out \<mapsto> (case merge_dir w out of None \<Rightarrow> [] | Some b \<Rightarrow> b) @ payload)\<rparr>))"

text \<open>Lines 107 and 108: \<open>os.remove\<close> of each chunk file, stopping at the first that raises.\<close>

fun remove_chunks :: "string \<Rightarrow> string list \<Rightarrow> world \<Rightarrow> bool \<times> world" where
  "remove_chunks d [] w = (True, w)"
| "remove_chunks d (n # ns) w =
     (if fs_fault w OpRemove [d, n] \<or> map_of (listdir w d) n = None then (False, w)
      else remove_chunks d ns
             (w\<lparr>upload_dir := (upload_dir w)(d \<mapsto> AList.delete n (listdir w d))\<rparr>))"

text \<open>
  The result is the path of the merged file, or \<open>None\<close>: every exception is caught and
  printed inside the function, which then returns nothing.
\<close>

definition merge_chunks :: "string \<Rightarrow> world \<Rightarrow> string option \<times> world" where
  "merge_chunks file_id w =
     (let output_file = merge_output file_id
      in case upload_dir w file_id of
           None \<Rightarrow> (None, w)
         | Some entries \<Rightarrow>
             if fs_fault w OpListdir [file_id] then (None, w)
             else if map fst entries = [] then (None, w)
             else
               (case sort_by_index (map fst entries) of
                  None \<Rightarrow> (None, w)
                | Some chunk_files \<Rightarrow>
                    if fs_fault w OpOpenWrite [output_file] then (None, w)
                    else
                      (case concat_chunks file_id output_file chunk_files
                              (w\<lparr>merge_dir := (merge_dir w)(output_file \<mapsto> [])\<rparr>) of
                         (False, w1) \<Rightarrow> (None, w1)
                       | (True, w1) \<Rightarrow>
                           (case remove_chunks file_id chunk_files w1 of
                              (False, w2) \<Rightarrow> (None, w2)
                            | (True, w2) \<Rightarrow>
                                if fs_fault w2 OpRmdir [file_id] \<or> listdir w2 file_id \<noteq> []
                                then (None, w2)
                                else (Some output_file,
                                      w2\<lparr>upload_dir := (upload_dir w2)(file_id := None)\<rparr>)))))"


section \<open>What the merge loops do\<close>

text \<open>
  \<open>payload_of\<close> reads a chunk of a directory listing and \<open>written\<close> the bytes of a file of
  the merge directory (both empty when there is none).
\<close>

definition payload_of :: "(string \<times> bytes) list \<Rightarrow> string \<Rightarrow> bytes" where
  "payload_of es n = (case map_of es n of None \<Rightarrow> [] | Some p \<Rightarrow> p)"

definition written :: "world \<Rightarrow> string \<Rightarrow> bytes" where
  "written w out = (case merge_dir w out of None \<Rightarrow> [] | Some b \<Rightarrow> b)"

lemma concat_chunks_frame:
  "concat_chunks d out ns w = (ok, w1) \<Longrightarrow>
     upload_dir w1 = upload_dir w \<and> hashes w1 = hashes w \<and> fs_fault w1 = fs_fault w
     \<and> redis_up w1 = redis_up w \<and> version w1 = version w \<and> jobs w1 = jobs w
     \<and> movies w1 = movies w \<and> insert_fault w1 = insert_fault w
     \<and> (\<forall>q. q \<noteq> out \<longrightarrow> merge_dir w1 q = merge_dir w q)"
proof (induction ns arbitrary: w)
  case Nil
  then show ?case by simp
next
  case (Cons n ns)
  show ?case
  proof (cases "fs_fault w OpRead [d, n]")
    case True
    with Cons.prems show ?thesis by simp
  next
    case nr: False
    show ?thesis
    proof (cases "map_of (listdir w d) n")
      case None
      with Cons.prems nr show ?thesis by simp
    next
      case (Some p)
      show ?thesis
      proof (cases "fs_fault w OpWrite [out]")
        case True
        with Cons.prems nr Some show ?thesis by simp
      next
        case False
        let ?w = "w\<lparr>merge_dir := (merge_dir w)(out \<mapsto> written w out @ p)\<rparr>"
        from Cons.prems False nr Some have "concat_chunks d out ns ?w = (ok, w1)"
          by (simp add: written_def)
        from Cons.IH [OF this] show ?thesis
          by simp
      qed
    qed
  qed
qed

lemma listdir_merge_dir [simp]: "listdir (w\<lparr>merge_dir := m\<rparr>) = listdir w"
  by (simp add: listdir_def fun_eq_iff)

lemma concat_chunks_ok:
  "concat_chunks d out ns w = (True, w1) \<Longrightarrow> merge_dir w out \<noteq> None \<Longrightarrow>
     merge_dir w1 out = Some (written w out @ concat (map (payload_of (listdir w d)) ns))"
proof (induction ns arbitrary: w)
  case Nil
  then show ?case by (auto simp add: written_def)
next
  case (Cons n ns)
  from Cons.prems(1) have nf: "\<not> fs_fault w OpRead [d, n]" "\<not> fs_fault w OpWrite [out]"
    by (auto split: if_splits option.splits)
  from Cons.prems(1) nf obtain p where p: "map_of (listdir w d) n = Some p"
    by (cases "map_of (listdir w d) n") auto
  let ?w = "w\<lparr>merge_dir := (merge_dir w)(out \<mapsto> written w out @ p)\<rparr>"
  from Cons.prems(1) nf p have "concat_chunks d out ns ?w = (True, w1)"
    by (simp add: written_def)
  from Cons.IH [OF this] have "merge_dir w1 out
      = Some (written ?w out @ concat (map (payload_of (listdir ?w d)) ns))"
    by simp
  moreover have "payload_of (listdir w d) n = p"
    by (simp add: payload_of_def p)
  moreover have "written ?w out = written w out @ p"
    by (simp add: written_def)
  ultimately show ?case
    by simp
qed


lemma remove_chunks_frame:
  "remove_chunks d ns w = (ok, w1) \<Longrightarrow>
     merge_dir w1 = merge_dir w \<and> hashes w1 = hashes w \<and> fs_fault w1 = fs_fault w
     \<and> redis_up w1 = redis_up w \<and> version w1 = version w \<and> jobs w1 = jobs w
     \<and> movies w1 = movies w \<and> insert_fault w1 = insert_fault w
     \<and> (\<forall>e. e \<noteq> d \<longrightarrow> upload_dir w1 e = upload_dir w e)"
proof (induction ns arbitrary: w)
  case Nil
  then show ?case by simp
next
  case (Cons n ns)
  show ?case
  proof (cases "fs_fault w OpRemove [d, n] \<or> map_of (listdir w d) n = None")
    case True
    with Cons.prems show ?thesis
      by auto
  next
    case False
    let ?w = "w\<lparr>upload_dir := (upload_dir w)(d \<mapsto> AList.delete n (listdir w d))\<rparr>"
    from Cons.prems False have "remove_chunks d ns ?w = (ok, w1)"
      by simp
    from Cons.IH [OF this] show ?thesis
      by simp
  qed
qed

lemma listdir_upd [simp]: "listdir (w\<lparr>upload_dir := (upload_dir w)(d \<mapsto> es)\<rparr>) d = es"
  by (simp add: listdir_def)









section \<open>Order of the merged artifact\<close>

text \<open>
  A session directory whose chunks arrived in the order \<open>10\<close>, \<open>9\<close>, \<open>2\<close>.
\<close>

definition three_chunks :: world where
  "three_chunks = fresh_world\<lparr>upload_dir := [''u1'' \<mapsto> [(''10'', ''c''), (''9'', ''b''), (''2'', ''a'')]]\<rparr>"

lemma chunk_index_examples:
  "chunk_index ''10'' = Some 10" "chunk_index ''9'' = Some 9" "chunk_index ''2'' = Some 2"
  "chunk_index ''chunk_7'' = Some 7" "chunk_index ''part'' = None"
  by (simp_all add: chunk_index_def last_segment_def py_int_def strip_def is_space_def isdigit_def
      is_digit_char_def digits_value_def digit_value_def)




section \<open>Failure and cleanup in the Merge Worker\<close>

lemma remove_chunks_keeps_dir:
  "remove_chunks d ns w = (ok, w1) \<Longrightarrow> upload_dir w d \<noteq> None \<Longrightarrow> upload_dir w1 d \<noteq> None"
proof (induction ns arbitrary: w)
  case Nil
  then show ?case by simp
next
  case (Cons n ns)
  show ?case
  proof (cases "fs_fault w OpRemove [d, n] \<or> map_of (listdir w d) n = None")
    case True
    with Cons.prems show ?thesis by auto
  next
    case False
    let ?w = "w\<lparr>upload_dir := (upload_dir w)(d \<mapsto> AList.delete n (listdir w d))\<rparr>"
    from Cons.prems False have "remove_chunks d ns ?w = (ok, w1)"
      by simp
    from Cons.IH [OF this] show ?thesis
      by simp
  qed
qed

text \<open>
  \<open>complete_artifact f w w'\<close>: in \<open>w'\<close> the output path of session \<open>f\<close> holds the whole
  concatenation of the chunks that \<open>w\<close> stores for it, in sorted order.
\<close>

definition complete_artifact :: "string \<Rightarrow> world \<Rightarrow> world \<Rightarrow> bool" where
  "complete_artifact f w w' =
     (\<exists>es names. upload_dir w f = Some es \<and> sort_by_index (map fst es) = Some names
        \<and> merge_dir w' (merge_output f) = Some (concat (map (payload_of es) names)))"

lemma merge_chunks_cases:
  assumes "merge_chunks f w = (r, w')"
  shows "(r = None \<and> upload_dir w' = upload_dir w)
       \<or> (complete_artifact f w w' \<and> (\<forall>d. d \<noteq> f \<longrightarrow> upload_dir w' d = upload_dir w d)
            \<and> ((r = None \<and> upload_dir w' f \<noteq> None)
               \<or> (r = Some (merge_output f) \<and> upload_dir w' f = None)))"
proof (cases "upload_dir w f")
  case None
  with assms show ?thesis
    by (simp add: merge_chunks_def)
next
  case (Some es)
  let ?out = "merge_output f"
  let ?w0 = "w\<lparr>merge_dir := (merge_dir w)(?out \<mapsto> [])\<rparr>"
  have ld: "listdir w f = es"
    by (simp add: listdir_def Some)
  show ?thesis
  proof (cases "fs_fault w OpListdir [f] \<or> es = []")
    case True
    with assms Some have "r = None" "w' = w"
      by (auto simp add: merge_chunks_def Let_def split: if_splits)
    then show ?thesis
      by simp
  next
    case ok1: False
    show ?thesis
    proof (cases "sort_by_index (map fst es)")
      case None
      with assms Some ok1 show ?thesis
        by (simp add: merge_chunks_def)
    next
      case names: (Some names)
      show ?thesis
      proof (cases "fs_fault w OpOpenWrite [?out]")
        case True
        with assms Some ok1 names show ?thesis
          by (simp add: merge_chunks_def)
      next
        case ok2: False
        obtain c w1 where c: "concat_chunks f ?out names ?w0 = (c, w1)"
          by (cases "concat_chunks f ?out names ?w0")
        note f1 = concat_chunks_frame [OF c]
        show ?thesis
        proof (cases c)
          case False
          with assms Some ok1 names ok2 c f1 show ?thesis
            by (simp add: merge_chunks_def Let_def)
        next
          case True
          with c concat_chunks_ok [of f ?out names ?w0 w1]
          have m1: "merge_dir w1 ?out = Some (concat (map (payload_of es) names))"
            by (simp add: written_def ld)
          have u1: "upload_dir w1 f \<noteq> None"
            using f1 Some by simp
          obtain k w2 where k: "remove_chunks f names w1 = (k, w2)"
            by (cases "remove_chunks f names w1")
          note f2 = remove_chunks_frame [OF k]
          note u2 = remove_chunks_keeps_dir [OF k u1]
          have ca: "complete_artifact f w w2"
            using Some names m1 f2 by (auto simp add: complete_artifact_def)
          have fr: "\<forall>d. d \<noteq> f \<longrightarrow> upload_dir w2 d = upload_dir w d"
            using f1 f2 by simp
          show ?thesis
          proof (cases "k \<and> \<not> fs_fault w2 OpRmdir [f] \<and> listdir w2 f = []")
            case True
            with assms Some ok1 names ok2 c \<open>c\<close> k
            have "r = Some ?out" "w' = w2\<lparr>upload_dir := (upload_dir w2)(f := None)\<rparr>"
              by (simp_all add: merge_chunks_def Let_def)
            with ca fr show ?thesis
              by (simp add: complete_artifact_def)
          next
            case False
            with assms Some ok1 names ok2 c \<open>c\<close> k
            have "r = None" "w' = w2"
              by (auto simp add: merge_chunks_def Let_def split: bool.splits if_splits)
            with ca fr u2 show ?thesis
              by simp
          qed
        qed
      qed
    qed
  qed
qed


text \<open>A session of two chunks whose second chunk cannot be read.\<close>

definition unreadable_chunk :: world where
  "unreadable_chunk =
     fresh_world\<lparr>upload_dir := [''u1'' \<mapsto> [(''0'', ''a''), (''1'', ''b'')]],
                  fs_fault := (\<lambda>op p. op = OpRead \<and> p = [''u1'', ''1''])\<rparr>"

lemma chunk_index_01: "chunk_index ''0'' = Some 0" "chunk_index ''1'' = Some 1"
  by (simp_all add: chunk_index_def last_segment_def py_int_def strip_def is_space_def isdigit_def
      is_digit_char_def digits_value_def digit_value_def)

lemma merge_unreadable:
  "merge_chunks ''u1'' unreadable_chunk
     = (None, unreadable_chunk\<lparr>merge_dir := [''u1.csv'' \<mapsto> ''a'']\<rparr>)"
  by (simp add: merge_chunks_def unreadable_chunk_def fresh_world_def Let_def sort_by_index_def
      chunk_index_01 merge_output_def listdir_def)

lemma merge_three_chunks:
  "fst (merge_chunks ''u1'' three_chunks) = Some ''u1.csv''"
  by (simp add: merge_chunks_def three_chunks_def fresh_world_def Let_def sort_by_index_def
      chunk_index_examples merge_output_def listdir_def)

text \<open>
  Claim C5, as the code has it. Whatever \<open>merge_chunks\<close> returns: if any chunk blob or the
  session directory is gone afterwards, the output path holds the complete artifact, so a
  failure while listing, ordering or concatenating deletes nothing; a returned path is the
  output path, with the complete artifact there and the session directory removed; the
  session directory is removed only by a run that returns the path; and no other
  session's directory is touched.
\<close>

theorem chunks_deleted_only_after_reassembly:
  assumes "merge_chunks f w = (r, w')"
  shows "(upload_dir w' \<noteq> upload_dir w \<longrightarrow> complete_artifact f w w')
       \<and> (r \<noteq> None \<longrightarrow> r = Some (merge_output f) \<and> upload_dir w' f = None
             \<and> complete_artifact f w w')
       \<and> (upload_dir w f \<noteq> None \<and> upload_dir w' f = None \<longrightarrow> r = Some (merge_output f))
       \<and> (\<forall>d. d \<noteq> f \<longrightarrow> upload_dir w' d = upload_dir w d)"
  using merge_chunks_cases [OF assms] by auto

theorem chunks_deleted_only_after_reassembly_witness:
  "complete_artifact ''u1'' three_chunks (snd (merge_chunks ''u1'' three_chunks))
   \<and> upload_dir (snd (merge_chunks ''u1'' three_chunks)) ''u1'' = None
   \<and> upload_dir (snd (merge_chunks ''u1'' unreadable_chunk)) ''u1''
       = Some [(''0'', ''a''), (''1'', ''b'')]"
proof -
  have p: "merge_chunks ''u1'' three_chunks
      = (fst (merge_chunks ''u1'' three_chunks), snd (merge_chunks ''u1'' three_chunks))"
    by simp
  have q: "merge_chunks ''u1'' unreadable_chunk
      = (None, snd (merge_chunks ''u1'' unreadable_chunk))"
    by (simp add: merge_unreadable)
  have n: "\<not> complete_artifact ''u1'' unreadable_chunk (snd (merge_chunks ''u1'' unreadable_chunk))"
    by (simp add: merge_unreadable complete_artifact_def)
       (simp add: unreadable_chunk_def sort_by_index_def chunk_index_01 payload_of_def)
  have u: "upload_dir unreadable_chunk ''u1'' = Some [(''0'', ''a''), (''1'', ''b'')]"
    by (simp add: unreadable_chunk_def)
  from chunks_deleted_only_after_reassembly [OF p] merge_three_chunks
    chunks_deleted_only_after_reassembly [OF q] n u
  show ?thesis
    by auto
qed

text \<open>
  Against claim C5 as stated: the artifact is written in place. When the second of two
  chunks cannot be read, the run fails and the output path, which did not exist before,
  holds the first chunk only.
\<close>

theorem partial_artifact_at_output_path:
  "fst (merge_chunks ''u1'' unreadable_chunk) = None
   \<and> merge_dir unreadable_chunk ''u1.csv'' = None
   \<and> merge_dir (snd (merge_chunks ''u1'' unreadable_chunk)) ''u1.csv'' = Some ''a''
   \<and> \<not> complete_artifact ''u1'' unreadable_chunk (snd (merge_chunks ''u1'' unreadable_chunk))"
  by (simp add: merge_unreadable complete_artifact_def)
     (simp add: unreadable_chunk_def fresh_world_def sort_by_index_def chunk_index_01 payload_of_def)


section \<open>Batch Processor and the pipeline task\<close>









section \<open>What the pipeline task changes\<close>








section \<open>Status after a failing run\<close>









section \<open>Normalisation of a batch\<close>







end
